theory Spec2Isabelle
  imports Main "HOL-Library.AList"
begin

section \<open>Entity graph\<close>

text \<open>
  The store of \<^verbatim>\<open>store/useSheetStore.ts\<close> keeps three id-keyed objects and explicit
  order arrays. Identifiers and names are strings. A JavaScript object
  \<^verbatim>\<open>Record<string, V>\<close> is an association list with unique keys in insertion order:
  \<^verbatim>\<open>obj[k]\<close> is \<open>map_of obj k\<close>, \<^verbatim>\<open>{...obj, [k]: v}\<close> is \<open>AList.update k v obj\<close> (an
  existing key keeps its place, a new key goes last), \<^verbatim>\<open>delete obj[k]\<close> is
  \<open>AList.delete k obj\<close> and \<^verbatim>\<open>Object.values(obj)\<close> is \<open>map snd obj\<close>.
  An optional property (\<^verbatim>\<open>difficulty?\<close>, \<^verbatim>\<open>link?\<close>) is an \<open>option\<close>; absent and
  \<^verbatim>\<open>undefined\<close> are both \<open>None\<close>.
\<close>

type_synonym 'v obj = "(string \<times> 'v) list"

record TopicEntity =
  topic_id :: string
  topic_name :: string
  subTopicIds :: "string list"

record SubTopicEntity =
  sub_id :: string
  sub_name :: string
  topicId :: string
  questionIds :: "string list"

record QuestionEntity =
  q_id :: string
  title :: string
  difficulty :: "string option"
  link :: "string option"

record PersistedState =
  topicsById :: "TopicEntity obj"
  subTopicsById :: "SubTopicEntity obj"
  questionsById :: "QuestionEntity obj"
  topicOrder :: "string list"
  expandedTopics :: "bool obj"
  expandedSubTopics :: "bool obj"

text \<open>
  \<^verbatim>\<open>interface NormalizedState extends PersistedState\<close>. The fields \<^verbatim>\<open>_hasHydrated\<close>,
  \<^verbatim>\<open>_history\<close>, \<^verbatim>\<open>_historyIndex\<close> and \<^verbatim>\<open>_isUndoRedo\<close> lose their leading underscore.
  \<open>historyIndex = -1\<close> means "at present".
\<close>

record NormalizedState = PersistedState +
  loading :: bool
  error :: "string option"
  hasHydrated :: bool
  history :: "PersistedState list"
  historyIndex :: int
  isUndoRedo :: bool

definition MAX_HISTORY_SIZE :: nat where
  "MAX_HISTORY_SIZE = 20"

definition initialState :: NormalizedState where
  "initialState =
     \<lparr> topicsById = [], subTopicsById = [], questionsById = [], topicOrder = [],
       expandedTopics = [], expandedSubTopics = [],
       loading = False, error = None, hasHydrated = False,
       history = [], historyIndex = -1, isUndoRedo = False \<rparr>"

section \<open>History manager\<close>

text \<open>
  \<^verbatim>\<open>createSnapshot\<close> deep-copies the six persisted fields
  (\<^verbatim>\<open>JSON.parse(JSON.stringify(..))\<close> and spreads); on immutable values a deep copy is
  the value itself. \<^verbatim>\<open>applySnapshot\<close> yields the same six fields, which \<^verbatim>\<open>set\<close> merges
  into the store.
\<close>

definition createSnapshot :: "NormalizedState \<Rightarrow> PersistedState" where
  "createSnapshot state =
     \<lparr> topicsById = topicsById state,
       subTopicsById = subTopicsById state,
       questionsById = questionsById state,
       topicOrder = topicOrder state,
       expandedTopics = expandedTopics state,
       expandedSubTopics = expandedSubTopics state \<rparr>"

definition applySnapshot :: "PersistedState \<Rightarrow> NormalizedState \<Rightarrow> NormalizedState" where
  "applySnapshot snapshot state =
     state\<lparr> topicsById := topicsById snapshot,
            subTopicsById := subTopicsById snapshot,
            questionsById := questionsById snapshot,
            topicOrder := topicOrder snapshot,
            expandedTopics := expandedTopics snapshot,
            expandedSubTopics := expandedSubTopics snapshot \<rparr>"

text \<open>
  \<^verbatim>\<open>arr[i]\<close> for a number \<open>i\<close>: \<^verbatim>\<open>undefined\<close> (here \<open>None\<close>) outside \<open>0 .. length - 1\<close>.
\<close>

definition at_index :: "'a list \<Rightarrow> int \<Rightarrow> 'a option" where
  "at_index xs i = (if 0 \<le> i \<and> i < int (length xs) then Some (xs ! nat i) else None)"

definition recordHistory :: "NormalizedState \<Rightarrow> NormalizedState" where
  "recordHistory state =
     (if isUndoRedo state then state
      else
        let snapshot = createSnapshot state;
            kept = (if historyIndex state \<ge> 0
                    then take (nat (historyIndex state + 1)) (history state)
                    else history state);
            pushed = kept @ [snapshot];
            newHistory = (if length pushed > MAX_HISTORY_SIZE
                          then drop (length pushed - MAX_HISTORY_SIZE) pushed
                          else pushed)
        in state\<lparr> history := newHistory, historyIndex := -1 \<rparr>)"

definition canUndo :: "NormalizedState \<Rightarrow> bool" where
  "canUndo state =
     (if historyIndex state = -1 then length (history state) > 0
      else historyIndex state > 0)"

definition canRedo :: "NormalizedState \<Rightarrow> bool" where
  "canRedo state =
     (historyIndex state \<ge> 0 \<and> historyIndex state < int (length (history state)) - 1)"

definition undo :: "NormalizedState \<Rightarrow> NormalizedState" where
  "undo state =
     (if \<not> canUndo state then state
      else
        let moved =
              (if historyIndex state = -1
               then state\<lparr> isUndoRedo := True,
                           history := history state @ [createSnapshot state],
                           historyIndex := int (length (history state)) - 1 \<rparr>
               else state\<lparr> isUndoRedo := True,
                           historyIndex := historyIndex state - 1 \<rparr>)
        in case at_index (history moved) (historyIndex moved) of
             Some snapshot \<Rightarrow> (applySnapshot snapshot moved)\<lparr> isUndoRedo := False \<rparr>
           | None \<Rightarrow> moved\<lparr> isUndoRedo := False \<rparr>)"

definition redo :: "NormalizedState \<Rightarrow> NormalizedState" where
  "redo state =
     (if \<not> canRedo state then state
      else
        let moved = state\<lparr> isUndoRedo := True, historyIndex := historyIndex state + 1 \<rparr>
        in case at_index (history moved) (historyIndex moved) of
             Some snapshot \<Rightarrow>
               (let atPresent = (historyIndex moved = int (length (history moved)) - 1)
                in (applySnapshot snapshot moved)
                     \<lparr> isUndoRedo := False,
                       historyIndex := (if atPresent then -1 else historyIndex moved),
                       history := (if atPresent then butlast (history moved)
                                   else history moved) \<rparr>)
           | None \<Rightarrow> moved\<lparr> isUndoRedo := False \<rparr>)"

section \<open>Validation layer\<close>

text \<open>
  \<^verbatim>\<open>utils/validation.ts\<close>. Strings are ASCII here: \<^verbatim>\<open>trim\<close> strips the ASCII white space
  and line terminators, \<^verbatim>\<open>toLowerCase\<close> maps \<open>A..Z\<close> to \<open>a..z\<close>, and \<open>length\<close> counts
  characters. \<^verbatim>\<open>ValidationResult\<close> is \<^verbatim>\<open>{ valid: boolean; error?: string }\<close>.
\<close>

datatype ValidationResult = ValidationResult (valid: bool) (verror: "string option")

definition isWhiteSpace :: "char \<Rightarrow> bool" where
  "isWhiteSpace c \<longleftrightarrow>
     c \<in> set [CHR 0x09, CHR 0x0A, CHR 0x0B, CHR 0x0C, CHR 0x0D, CHR 0x20]"

definition trim :: "string \<Rightarrow> string" where
  "trim s = rev (dropWhile isWhiteSpace (rev (dropWhile isWhiteSpace s)))"

definition lowerChar :: "char \<Rightarrow> char" where
  "lowerChar c =
     (case map_of (zip ''ABCDEFGHIJKLMNOPQRSTUVWXYZ'' ''abcdefghijklmnopqrstuvwxyz'') c of
        Some d \<Rightarrow> d
      | None \<Rightarrow> c)"

definition toLowerCase :: "string \<Rightarrow> string" where
  "toLowerCase s = map lowerChar s"

definition validateName :: "string \<Rightarrow> string list \<Rightarrow> string \<Rightarrow> ValidationResult" where
  "validateName name existingNames fieldLabel =
     (let trimmed = trim name in
      if trimmed = [] then
        ValidationResult False (Some (fieldLabel @ '' is required''))
      else if length trimmed < 2 then
        ValidationResult False (Some (fieldLabel @ '' must be at least 2 characters''))
      else if length trimmed > 100 then
        ValidationResult False (Some (fieldLabel @ '' must be less than 100 characters''))
      else
        let normalizedName = toLowerCase trimmed;
            isDuplicate = list_ex (\<lambda>existing. toLowerCase existing = normalizedName) existingNames
        in if isDuplicate then
             ValidationResult False (Some (fieldLabel @ '' already exists''))
           else ValidationResult True None)"

definition validateQuestionTitle :: "string \<Rightarrow> string list \<Rightarrow> ValidationResult" where
  "validateQuestionTitle ttl existingTitles =
     (let trimmed = trim ttl in
      if trimmed = [] then
        ValidationResult False (Some ''Question title is required'')
      else if length trimmed < 3 then
        ValidationResult False (Some ''Question title must be at least 3 characters'')
      else if length trimmed > 200 then
        ValidationResult False (Some ''Question title must be less than 200 characters'')
      else
        let normalizedTitle = toLowerCase trimmed;
            isDuplicate = list_ex (\<lambda>existing. toLowerCase existing = normalizedTitle) existingTitles
        in if isDuplicate then
             ValidationResult False (Some ''Question with this title already exists'')
           else ValidationResult True None)"

text \<open>
  \<^verbatim>\<open>validateUrl\<close> calls the platform's \<^verbatim>\<open>new URL(trimmed)\<close> and reads \<^verbatim>\<open>parsed.protocol\<close>.
  The constructor is not part of the repository, so it is the parameter \<open>parseUrl\<close>:
  \<open>parseUrl u = None\<close> when the constructor throws (no absolute URL can be read from
  \<open>u\<close>), and \<open>Some p\<close> with the protocol \<open>p\<close> (scheme and colon, as in \<^verbatim>\<open>'http:'\<close>) when it
  returns.
\<close>

definition validateUrl :: "(string \<Rightarrow> string option) \<Rightarrow> string \<Rightarrow> ValidationResult" where
  "validateUrl parseUrl url =
     (let trimmed = trim url in
      if trimmed = [] then ValidationResult True None
      else
        case parseUrl trimmed of
          Some protocol \<Rightarrow>
            if protocol \<noteq> ''http:'' \<and> protocol \<noteq> ''https:'' then
              ValidationResult False (Some ''URL must use http or https protocol'')
            else ValidationResult True None
        | None \<Rightarrow> ValidationResult False (Some ''Invalid URL format''))"

definition validateDifficulty :: "string \<Rightarrow> ValidationResult" where
  "validateDifficulty d =
     (if d = [] then ValidationResult True None
      else if d \<notin> set [''Easy'', ''Medium'', ''Hard''] then
        ValidationResult False (Some ''Invalid difficulty level'')
      else ValidationResult True None)"

section \<open>Array splicing\<close>

text \<open>
  \<^verbatim>\<open>Array.prototype.splice(start, ..)\<close> on integer arguments: a negative \<open>start\<close> counts
  from the end, and the result is clamped to \<open>0 .. length\<close>.
  \<^verbatim>\<open>arr.splice(i, 0, x)\<close> is \<open>spliceInsert\<close>.
  The reorder idiom \<^verbatim>\<open>const [removed] = arr.splice(src, 1); arr.splice(dst, 0, removed)\<close> is
  \<open>arrayMove\<close>: when \<open>src\<close> is past the end nothing is removed, \<^verbatim>\<open>removed\<close> is \<^verbatim>\<open>undefined\<close>
  and the array would afterwards hold \<^verbatim>\<open>undefined\<close>, which is no \<^verbatim>\<open>string[]\<close> any more;
  that outcome is \<open>None\<close>.
\<close>

definition spliceStart :: "int \<Rightarrow> nat \<Rightarrow> nat" where
  "spliceStart start len =
     (if start < 0 then nat (max (int len + start) 0) else min (nat start) len)"

definition spliceInsert :: "int \<Rightarrow> 'a \<Rightarrow> 'a list \<Rightarrow> 'a list" where
  "spliceInsert start x xs =
     (let k = spliceStart start (length xs) in take k xs @ [x] @ drop k xs)"

definition arrayMove :: "int \<Rightarrow> int \<Rightarrow> 'a list \<Rightarrow> 'a list option" where
  "arrayMove sourceIndex destinationIndex xs =
     (let k = spliceStart sourceIndex (length xs) in
      if k < length xs then
        Some (spliceInsert destinationIndex (xs ! k) (take k xs @ drop (Suc k) xs))
      else None)"

section \<open>Selectors\<close>

text \<open>
  \<^verbatim>\<open>excludeId?: string\<close> is an \<open>option\<close>; \<^verbatim>\<open>id !== undefined\<close> holds for every string.
  \<^verbatim>\<open>.map(id => subTopicsById[id]?.name).filter(name => !!name)\<close> drops missing entities
  and empty names.
\<close>

definition getTopicNames :: "string option \<Rightarrow> NormalizedState \<Rightarrow> string list" where
  "getTopicNames excludeId state =
     map topic_name (filter (\<lambda>t. Some (topic_id t) \<noteq> excludeId) (map snd (topicsById state)))"

definition getSubTopicNames :: "string \<Rightarrow> string option \<Rightarrow> NormalizedState \<Rightarrow> string list" where
  "getSubTopicNames tId excludeId state =
     (case map_of (topicsById state) tId of
        None \<Rightarrow> []
      | Some topic \<Rightarrow>
          List.map_filter
            (\<lambda>i. case map_of (subTopicsById state) i of
                   None \<Rightarrow> None
                 | Some st \<Rightarrow> if sub_name st = [] then None else Some (sub_name st))
            (filter (\<lambda>i. Some i \<noteq> excludeId) (subTopicIds topic)))"

definition getQuestionTitles :: "string \<Rightarrow> string option \<Rightarrow> NormalizedState \<Rightarrow> string list" where
  "getQuestionTitles subTopicId excludeId state =
     (case map_of (subTopicsById state) subTopicId of
        None \<Rightarrow> []
      | Some subTopic \<Rightarrow>
          List.map_filter
            (\<lambda>i. case map_of (questionsById state) i of
                   None \<Rightarrow> None
                 | Some q \<Rightarrow> if title q = [] then None else Some (title q))
            (filter (\<lambda>i. Some i \<noteq> excludeId) (questionIds subTopic)))"

section \<open>Mutation API\<close>

text \<open>
  Every operation takes the store and returns the store after it; operations that
  return \<^verbatim>\<open>{ success: boolean; error?: string }\<close> also return that value.
  \<^verbatim>\<open>generateId()\<close> draws a fresh random identifier; it is the argument \<open>newId\<close>.
  \<^verbatim>\<open>get()._recordHistory()\<close> followed by \<^verbatim>\<open>set(state => ..)\<close> is \<open>recordHistory\<close> followed
  by record updates of the recorded store.
\<close>

datatype OpResult = OpResult (success: bool) (failure: "string option")

definition addTopic :: "string \<Rightarrow> string \<Rightarrow> NormalizedState \<Rightarrow> OpResult \<times> NormalizedState" where
  "addTopic newId name state =
     (let existingNames = getTopicNames None state;
          validation = validateName name existingNames ''Topic name''
      in if \<not> valid validation then (OpResult False (verror validation), state)
         else
           let recorded = recordHistory state;
               newTopic = \<lparr> topic_id = newId, topic_name = trim name, subTopicIds = [] \<rparr>
           in (OpResult True None,
               recorded\<lparr> topicsById := AList.update newId newTopic (topicsById recorded),
                         topicOrder := topicOrder recorded @ [newId],
                         expandedTopics := AList.update newId True (expandedTopics recorded) \<rparr>))"

definition updateTopic :: "string \<Rightarrow> string \<Rightarrow> NormalizedState \<Rightarrow> OpResult \<times> NormalizedState" where
  "updateTopic tId name state =
     (case map_of (topicsById state) tId of
        None \<Rightarrow> (OpResult False (Some ''Topic not found''), state)
      | Some topic \<Rightarrow>
          let existingNames = getTopicNames (Some tId) state;
              validation = validateName name existingNames ''Topic name''
          in if \<not> valid validation then (OpResult False (verror validation), state)
             else
               let recorded = recordHistory state
               in (OpResult True None,
                   recorded\<lparr> topicsById :=
                     AList.update tId (topic\<lparr> topic_name := trim name \<rparr>) (topicsById recorded) \<rparr>))"

definition deleteTopic :: "string \<Rightarrow> NormalizedState \<Rightarrow> NormalizedState" where
  "deleteTopic tId state =
     (case map_of (topicsById state) tId of
        None \<Rightarrow> state
      | Some topic \<Rightarrow>
          let recorded = recordHistory state;
              subTopicIdsToDelete = subTopicIds topic;
              questionIdsToDelete =
                concat (map (\<lambda>stId. case map_of (subTopicsById state) stId of
                                       Some st \<Rightarrow> questionIds st
                                     | None \<Rightarrow> [])
                            subTopicIdsToDelete);
              newTopicsById = AList.delete tId (topicsById state);
              newSubTopicsById = fold AList.delete subTopicIdsToDelete (subTopicsById state);
              newQuestionsById = fold AList.delete questionIdsToDelete (questionsById state)
          in recorded\<lparr> topicsById := newTopicsById,
                       subTopicsById := newSubTopicsById,
                       questionsById := newQuestionsById,
                       topicOrder := filter (\<lambda>i. i \<noteq> tId) (topicOrder recorded),
                       expandedTopics := AList.delete tId (expandedTopics recorded),
                       expandedSubTopics :=
                         fold AList.delete subTopicIdsToDelete (expandedSubTopics recorded) \<rparr>)"

definition reorderTopics :: "int \<Rightarrow> int \<Rightarrow> NormalizedState \<Rightarrow> NormalizedState option" where
  "reorderTopics sourceIndex destinationIndex state =
     (let recorded = recordHistory state
      in case arrayMove sourceIndex destinationIndex (topicOrder recorded) of
           None \<Rightarrow> None
         | Some newOrder \<Rightarrow> Some (recorded\<lparr> topicOrder := newOrder \<rparr>))"

definition addSubTopic ::
  "string \<Rightarrow> string \<Rightarrow> string \<Rightarrow> NormalizedState \<Rightarrow> OpResult \<times> NormalizedState" where
  "addSubTopic newId tId name state =
     (case map_of (topicsById state) tId of
        None \<Rightarrow> (OpResult False (Some ''Topic not found''), state)
      | Some topic \<Rightarrow>
          let existingNames = getSubTopicNames tId None state;
              validation = validateName name existingNames ''Sub-topic name''
          in if \<not> valid validation then (OpResult False (verror validation), state)
             else
               let recorded = recordHistory state;
                   newSubTopic =
                     \<lparr> sub_id = newId, sub_name = trim name, topicId = tId, questionIds = [] \<rparr>
               in (OpResult True None,
                   recorded\<lparr> subTopicsById :=
                               AList.update newId newSubTopic (subTopicsById recorded),
                             topicsById :=
                               AList.update tId
                                 (topic\<lparr> subTopicIds := subTopicIds topic @ [newId] \<rparr>)
                                 (topicsById recorded),
                             expandedSubTopics :=
                               AList.update newId True (expandedSubTopics recorded) \<rparr>))"

definition updateSubTopic ::
  "string \<Rightarrow> string \<Rightarrow> string \<Rightarrow> NormalizedState \<Rightarrow> OpResult \<times> NormalizedState" where
  "updateSubTopic tId subTopicId name state =
     (case map_of (subTopicsById state) subTopicId of
        None \<Rightarrow> (OpResult False (Some ''Sub-topic not found''), state)
      | Some subTopic \<Rightarrow>
          let existingNames = getSubTopicNames tId (Some subTopicId) state;
              validation = validateName name existingNames ''Sub-topic name''
          in if \<not> valid validation then (OpResult False (verror validation), state)
             else
               let recorded = recordHistory state
               in (OpResult True None,
                   recorded\<lparr> subTopicsById :=
                     AList.update subTopicId (subTopic\<lparr> sub_name := trim name \<rparr>)
                       (subTopicsById recorded) \<rparr>))"

definition deleteSubTopic :: "string \<Rightarrow> string \<Rightarrow> NormalizedState \<Rightarrow> NormalizedState" where
  "deleteSubTopic tId subTopicId state =
     (case (map_of (topicsById state) tId, map_of (subTopicsById state) subTopicId) of
        (Some topic, Some subTopic) \<Rightarrow>
          let recorded = recordHistory state;
              newQuestionsById = fold AList.delete (questionIds subTopic) (questionsById state);
              newSubTopicsById = AList.delete subTopicId (subTopicsById state)
          in recorded\<lparr> subTopicsById := newSubTopicsById,
                       questionsById := newQuestionsById,
                       topicsById :=
                         AList.update tId
                           (topic\<lparr> subTopicIds := filter (\<lambda>i. i \<noteq> subTopicId) (subTopicIds topic) \<rparr>)
                           (topicsById recorded),
                       expandedSubTopics := AList.delete subTopicId (expandedSubTopics recorded) \<rparr>
      | _ \<Rightarrow> state)"

text \<open>
  \<^verbatim>\<open>reorderSubTopics\<close> and \<^verbatim>\<open>reorderQuestions\<close> call \<^verbatim>\<open>_recordHistory()\<close> first and look
  the container up afterwards, inside \<^verbatim>\<open>set\<close>: \<^verbatim>\<open>if (!topic) return state\<close> keeps the
  recorded store.
\<close>

definition reorderSubTopics ::
  "string \<Rightarrow> int \<Rightarrow> int \<Rightarrow> NormalizedState \<Rightarrow> NormalizedState option" where
  "reorderSubTopics tId sourceIndex destinationIndex state =
     (let recorded = recordHistory state
      in case map_of (topicsById recorded) tId of
           None \<Rightarrow> Some recorded
         | Some topic \<Rightarrow>
             (case arrayMove sourceIndex destinationIndex (subTopicIds topic) of
                None \<Rightarrow> None
              | Some newSubTopicIds \<Rightarrow>
                  Some (recorded\<lparr> topicsById :=
                          AList.update tId (topic\<lparr> subTopicIds := newSubTopicIds \<rparr>)
                            (topicsById recorded) \<rparr>)))"

text \<open>
  The question argument of \<^verbatim>\<open>addQuestion\<close> is
  \<^verbatim>\<open>{ title: string; difficulty?: string; link?: string }\<close> and the updates of
  \<^verbatim>\<open>updateQuestion\<close> are \<^verbatim>\<open>{ title?: string; difficulty?: string; link?: string }\<close>.
  \<^verbatim>\<open>if (question.link)\<close> holds for a present, non-empty string;
  \<^verbatim>\<open>link?.trim() || undefined\<close> is \<open>trimmedOrUndefined\<close>.
\<close>

record QuestionInput =
  in_title :: string
  in_difficulty :: "string option"
  in_link :: "string option"

record QuestionUpdates =
  up_title :: "string option"
  up_difficulty :: "string option"
  up_link :: "string option"

definition truthy :: "string option \<Rightarrow> bool" where
  "truthy v \<longleftrightarrow> (case v of None \<Rightarrow> False | Some str \<Rightarrow> str \<noteq> [])"

definition trimmedOrUndefined :: "string option \<Rightarrow> string option" where
  "trimmedOrUndefined v =
     (case v of None \<Rightarrow> None | Some str \<Rightarrow> if trim str = [] then None else Some (trim str))"

definition addQuestion ::
  "(string \<Rightarrow> string option) \<Rightarrow> string \<Rightarrow> string \<Rightarrow> string \<Rightarrow> QuestionInput \<Rightarrow>
   NormalizedState \<Rightarrow> OpResult \<times> NormalizedState" where
  "addQuestion parseUrl newId tId subTopicId question state =
     (case map_of (subTopicsById state) subTopicId of
        None \<Rightarrow> (OpResult False (Some ''Sub-topic not found''), state)
      | Some subTopic \<Rightarrow>
          let existingTitles = getQuestionTitles subTopicId None state;
              titleValidation = validateQuestionTitle (in_title question) existingTitles
          in if \<not> valid titleValidation then (OpResult False (verror titleValidation), state)
             else if truthy (in_link question)
                     \<and> \<not> valid (validateUrl parseUrl (the (in_link question))) then
               (OpResult False (verror (validateUrl parseUrl (the (in_link question)))), state)
             else if truthy (in_difficulty question)
                     \<and> \<not> valid (validateDifficulty (the (in_difficulty question))) then
               (OpResult False (verror (validateDifficulty (the (in_difficulty question)))), state)
             else
               let newQuestion =
                     \<lparr> q_id = newId, title = trim (in_title question),
                       difficulty = in_difficulty question,
                       link = trimmedOrUndefined (in_link question) \<rparr>;
                   recorded = recordHistory state
               in (OpResult True None,
                   recorded\<lparr> questionsById :=
                               AList.update newId newQuestion (questionsById recorded),
                             subTopicsById :=
                               AList.update subTopicId
                                 (subTopic\<lparr> questionIds := questionIds subTopic @ [newId] \<rparr>)
                                 (subTopicsById recorded) \<rparr>))"

definition updateQuestion ::
  "(string \<Rightarrow> string option) \<Rightarrow> string \<Rightarrow> string \<Rightarrow> string \<Rightarrow> QuestionUpdates \<Rightarrow>
   NormalizedState \<Rightarrow> OpResult \<times> NormalizedState" where
  "updateQuestion parseUrl tId subTopicId questionId updates state =
     (case map_of (questionsById state) questionId of
        None \<Rightarrow> (OpResult False (Some ''Question not found''), state)
      | Some question \<Rightarrow>
          if up_title updates \<noteq> None
             \<and> \<not> valid (validateQuestionTitle (the (up_title updates))
                          (getQuestionTitles subTopicId (Some questionId) state)) then
            (OpResult False
               (verror (validateQuestionTitle (the (up_title updates))
                          (getQuestionTitles subTopicId (Some questionId) state))), state)
          else if truthy (up_link updates)
                  \<and> \<not> valid (validateUrl parseUrl (the (up_link updates))) then
            (OpResult False (verror (validateUrl parseUrl (the (up_link updates)))), state)
          else if truthy (up_difficulty updates)
                  \<and> \<not> valid (validateDifficulty (the (up_difficulty updates))) then
            (OpResult False (verror (validateDifficulty (the (up_difficulty updates)))), state)
          else
            let recorded = recordHistory state
            in (OpResult True None,
                recorded\<lparr> questionsById :=
                  AList.update questionId
                    (question\<lparr> title := (case up_title updates of
                                           Some t \<Rightarrow> trim t
                                         | None \<Rightarrow> title question),
                               difficulty := (case up_difficulty updates of
                                                Some d \<Rightarrow> Some d
                                              | None \<Rightarrow> difficulty question),
                               link := trimmedOrUndefined (up_link updates) \<rparr>)
                    (questionsById recorded) \<rparr>))"

definition deleteQuestion ::
  "string \<Rightarrow> string \<Rightarrow> string \<Rightarrow> NormalizedState \<Rightarrow> NormalizedState" where
  "deleteQuestion tId subTopicId questionId state =
     (case (map_of (questionsById state) questionId, map_of (subTopicsById state) subTopicId) of
        (Some question, Some subTopic) \<Rightarrow>
          let recorded = recordHistory state;
              newQuestionsById = AList.delete questionId (questionsById state)
          in recorded\<lparr> questionsById := newQuestionsById,
                       subTopicsById :=
                         AList.update subTopicId
                           (subTopic\<lparr> questionIds :=
                              filter (\<lambda>i. i \<noteq> questionId) (questionIds subTopic) \<rparr>)
                           (subTopicsById recorded) \<rparr>
      | _ \<Rightarrow> state)"

definition reorderQuestions ::
  "string \<Rightarrow> string \<Rightarrow> int \<Rightarrow> int \<Rightarrow> NormalizedState \<Rightarrow> NormalizedState option" where
  "reorderQuestions tId subTopicId sourceIndex destinationIndex state =
     (let recorded = recordHistory state
      in case map_of (subTopicsById recorded) subTopicId of
           None \<Rightarrow> Some recorded
         | Some subTopic \<Rightarrow>
             (case arrayMove sourceIndex destinationIndex (questionIds subTopic) of
                None \<Rightarrow> None
              | Some newQuestionIds \<Rightarrow>
                  Some (recorded\<lparr> subTopicsById :=
                          AList.update subTopicId (subTopic\<lparr> questionIds := newQuestionIds \<rparr>)
                            (subTopicsById recorded) \<rparr>)))"

text \<open>
  The cross-container moves. The object literal
  \<^verbatim>\<open>{ ...state.topicsById, [fromTopicId]: F, [toTopicId]: T }\<close> writes the source entry
  first and the destination entry second; \<open>F\<close> and \<open>T\<close> are both computed from the store
  before either is written.
\<close>

definition moveSubTopicToTopic ::
  "string \<Rightarrow> string \<Rightarrow> string \<Rightarrow> int \<Rightarrow> NormalizedState \<Rightarrow> NormalizedState" where
  "moveSubTopicToTopic subTopicId fromTopicId toTopicId destinationIndex state =
     (case (map_of (topicsById state) fromTopicId, map_of (topicsById state) toTopicId,
            map_of (subTopicsById state) subTopicId) of
        (Some fromTopic, Some toTopic, Some subTopic) \<Rightarrow>
          if topicId subTopic \<noteq> fromTopicId then state
          else
            let recorded = recordHistory state;
                newFromSubTopicIds = filter (\<lambda>i. i \<noteq> subTopicId) (subTopicIds fromTopic);
                newToSubTopicIds = spliceInsert destinationIndex subTopicId (subTopicIds toTopic)
            in recorded\<lparr> topicsById :=
                           AList.update toTopicId (toTopic\<lparr> subTopicIds := newToSubTopicIds \<rparr>)
                             (AList.update fromTopicId
                                (fromTopic\<lparr> subTopicIds := newFromSubTopicIds \<rparr>)
                                (topicsById recorded)),
                         subTopicsById :=
                           AList.update subTopicId (subTopic\<lparr> topicId := toTopicId \<rparr>)
                             (subTopicsById recorded) \<rparr>
      | _ \<Rightarrow> state)"

definition moveQuestionToSubTopic ::
  "string \<Rightarrow> string \<Rightarrow> string \<Rightarrow> int \<Rightarrow> NormalizedState \<Rightarrow> NormalizedState" where
  "moveQuestionToSubTopic questionId fromSubTopicId toSubTopicId destinationIndex state =
     (case (map_of (subTopicsById state) fromSubTopicId,
            map_of (subTopicsById state) toSubTopicId,
            map_of (questionsById state) questionId) of
        (Some fromSubTopic, Some toSubTopic, Some question) \<Rightarrow>
          if questionId \<notin> set (questionIds fromSubTopic) then state
          else
            let recorded = recordHistory state;
                newFromQuestionIds = filter (\<lambda>i. i \<noteq> questionId) (questionIds fromSubTopic);
                newToQuestionIds = spliceInsert destinationIndex questionId (questionIds toSubTopic)
            in recorded\<lparr> subTopicsById :=
                           AList.update toSubTopicId
                             (toSubTopic\<lparr> questionIds := newToQuestionIds \<rparr>)
                             (AList.update fromSubTopicId
                                (fromSubTopic\<lparr> questionIds := newFromQuestionIds \<rparr>)
                                (subTopicsById recorded)) \<rparr>
      | _ \<Rightarrow> state)"

section \<open>Mutations as data\<close>

text \<open>
  One constructor for each write operation of the store, with the operation's arguments
  (and the fresh identifier for the three creating operations). \<open>apply_mutation\<close> runs
  the operation: \<open>None\<close> is the outcome of a reorder whose source index is out of range
  (see \<open>arrayMove\<close>), otherwise the returned value (\<open>None\<close> for a \<^verbatim>\<open>void\<close> operation) and the
  store afterwards.
\<close>

datatype mutation =
    AddTopic string string
  | UpdateTopic string string
  | DeleteTopic string
  | ReorderTopics int int
  | AddSubTopic string string string
  | UpdateSubTopic string string string
  | DeleteSubTopic string string
  | ReorderSubTopics string int int
  | MoveSubTopicToTopic string string string int
  | AddQuestion string string string QuestionInput
  | UpdateQuestion string string string QuestionUpdates
  | DeleteQuestion string string string
  | ReorderQuestions string string int int
  | MoveQuestionToSubTopic string string string int

fun apply_mutation ::
  "(string \<Rightarrow> string option) \<Rightarrow> mutation \<Rightarrow> NormalizedState \<Rightarrow>
   (OpResult option \<times> NormalizedState) option" where
  "apply_mutation P (AddTopic newId name) s =
     (case addTopic newId name s of (r, s') \<Rightarrow> Some (Some r, s'))"
| "apply_mutation P (UpdateTopic tId name) s =
     (case updateTopic tId name s of (r, s') \<Rightarrow> Some (Some r, s'))"
| "apply_mutation P (DeleteTopic tId) s = Some (None, deleteTopic tId s)"
| "apply_mutation P (ReorderTopics src dst) s =
     map_option (Pair None) (reorderTopics src dst s)"
| "apply_mutation P (AddSubTopic newId tId name) s =
     (case addSubTopic newId tId name s of (r, s') \<Rightarrow> Some (Some r, s'))"
| "apply_mutation P (UpdateSubTopic tId stId name) s =
     (case updateSubTopic tId stId name s of (r, s') \<Rightarrow> Some (Some r, s'))"
| "apply_mutation P (DeleteSubTopic tId stId) s = Some (None, deleteSubTopic tId stId s)"
| "apply_mutation P (ReorderSubTopics tId src dst) s =
     map_option (Pair None) (reorderSubTopics tId src dst s)"
| "apply_mutation P (MoveSubTopicToTopic stId fromId toId dst) s =
     Some (None, moveSubTopicToTopic stId fromId toId dst s)"
| "apply_mutation P (AddQuestion newId tId stId question) s =
     (case addQuestion P newId tId stId question s of (r, s') \<Rightarrow> Some (Some r, s'))"
| "apply_mutation P (UpdateQuestion tId stId qId updates) s =
     (case updateQuestion P tId stId qId updates s of (r, s') \<Rightarrow> Some (Some r, s'))"
| "apply_mutation P (DeleteQuestion tId stId qId) s = Some (None, deleteQuestion tId stId qId s)"
| "apply_mutation P (ReorderQuestions tId stId src dst) s =
     map_option (Pair None) (reorderQuestions tId stId src dst s)"
| "apply_mutation P (MoveQuestionToSubTopic qId fromId toId dst) s =
     Some (None, moveQuestionToSubTopic qId fromId toId dst s)"

section \<open>Persistence boundary\<close>

text \<open>
  \<^verbatim>\<open>isValidPersistedState(state: unknown)\<close> inspects a value of any shape, so its argument
  is a JSON value. Numbers are integers here (only \<open>0\<close> being falsy matters). \<^verbatim>\<open>typeof v\<close> is
  \<^verbatim>\<open>'object'\<close> for objects, arrays and \<^verbatim>\<open>null\<close>. \<open>getProp v k\<close> is the own property
  \<^verbatim>\<open>v[k]\<close> of an object or an array (an element for a canonical index, the length for
  \<^verbatim>\<open>'length'\<close>), \<open>None\<close> for \<^verbatim>\<open>undefined\<close>; properties inherited from the prototype are not
  modelled.
\<close>

datatype json =
    JNull
  | JBool bool
  | JNum int
  | JStr string
  | JArr "json list"
  | JObj "(string \<times> json) list"

definition jsTruthy :: "json \<Rightarrow> bool" where
  "jsTruthy v =
     (case v of
        JNull \<Rightarrow> False
      | JBool b \<Rightarrow> b
      | JNum n \<Rightarrow> n \<noteq> 0
      | JStr str \<Rightarrow> str \<noteq> []
      | JArr xs \<Rightarrow> True
      | JObj fs \<Rightarrow> True)"

definition typeofObject :: "json \<Rightarrow> bool" where
  "typeofObject v =
     (case v of JNull \<Rightarrow> True | JArr xs \<Rightarrow> True | JObj fs \<Rightarrow> True | _ \<Rightarrow> False)"

definition digitValue :: "char \<Rightarrow> nat option" where
  "digitValue c = map_of (zip ''0123456789'' [0, 1, 2, 3, 4, 5, 6, 7, 8, 9]) c"

definition arrayIndex :: "string \<Rightarrow> nat option" where
  "arrayIndex k =
     (if k = [] \<or> (\<exists>c \<in> set k. digitValue c = None) \<or> (hd k = CHR ''0'' \<and> length k > 1)
      then None
      else Some (foldl (\<lambda>n c. 10 * n + the (digitValue c)) 0 k))"

definition getProp :: "json \<Rightarrow> string \<Rightarrow> json option" where
  "getProp v k =
     (case v of
        JObj fs \<Rightarrow> map_of fs k
      | JArr xs \<Rightarrow>
          if k = ''length'' then Some (JNum (int (length xs)))
          else (case arrayIndex k of
                  Some i \<Rightarrow> if i < length xs then Some (xs ! i) else None
                | None \<Rightarrow> None)
      | _ \<Rightarrow> None)"

text \<open>\<^verbatim>\<open>typeof p === 'object' && p !== null\<close> for a property \<open>p\<close> that may be \<^verbatim>\<open>undefined\<close>.\<close>

definition isContainer :: "json option \<Rightarrow> bool" where
  "isContainer p = (case p of Some v \<Rightarrow> typeofObject v \<and> v \<noteq> JNull | None \<Rightarrow> False)"

definition isValidPersistedState :: "json \<Rightarrow> bool" where
  "isValidPersistedState state =
     (if \<not> jsTruthy state then False
      else if \<not> typeofObject state then False
      else if \<not> isContainer (getProp state ''topicsById'') then False
      else if \<not> isContainer (getProp state ''subTopicsById'') then False
      else if \<not> isContainer (getProp state ''questionsById'') then False
      else
        case getProp state ''topicOrder'' of
          Some (JArr ids) \<Rightarrow>
            if \<not> isContainer (getProp state ''expandedTopics'') then False
            else if \<not> isContainer (getProp state ''expandedSubTopics'') then False
            else
              list_all
                (\<lambda>i. case i of
                       JStr k \<Rightarrow>
                         (case getProp (the (getProp state ''topicsById'')) k of
                            Some v \<Rightarrow> jsTruthy v
                          | None \<Rightarrow> False)
                     | _ \<Rightarrow> False)
                ids
        | _ \<Rightarrow> False)"

text \<open>
  The callback that \<^verbatim>\<open>onRehydrateStorage\<close> returns. Its argument \<^verbatim>\<open>state\<close> is the store's
  state after the persist middleware has loaded the stored value into it (the callback
  calls the store's action \<^verbatim>\<open>state.setHasHydrated\<close> on it), or \<^verbatim>\<open>undefined\<close>. The callback
  does two things: when \<^verbatim>\<open>state\<close> is there and not valid it calls
  \<^verbatim>\<open>localStorage.removeItem(STORAGE_KEY)\<close>, and it sets \<^verbatim>\<open>_hasHydrated\<close>. \<open>stateAfter\<close> is the
  store's state when the callback returns.
\<close>

definition setHasHydrated :: "bool \<Rightarrow> json \<Rightarrow> json" where
  "setHasHydrated b state =
     (case state of JObj fs \<Rightarrow> JObj (AList.update ''_hasHydrated'' (JBool b) fs) | _ \<Rightarrow> state)"

record RehydrateEffect =
  storageRemoved :: bool
  stateAfter :: "json option"

definition onRehydrateStorage :: "json option \<Rightarrow> bool \<Rightarrow> RehydrateEffect" where
  "onRehydrateStorage state err =
     \<lparr> storageRemoved =
         (case state of
            Some st \<Rightarrow> jsTruthy st \<and> \<not> isValidPersistedState st
          | None \<Rightarrow> False),
       stateAfter = map_option (setHasHydrated True) state \<rparr>"

section \<open>Auxiliary notions for the proofs\<close>

text \<open>
  \<open>committed s s'\<close>: the store \<open>s'\<close> carries the history that \<^verbatim>\<open>_recordHistory()\<close> leaves when
  called in \<open>s\<close>, that is, \<open>s'\<close> is what a mutation that recorded a snapshot of \<open>s\<close> returns.
\<close>

definition committed :: "NormalizedState \<Rightarrow> NormalizedState \<Rightarrow> bool" where
  "committed s s' \<longleftrightarrow>
     history s' = history (recordHistory s) \<and>
     historyIndex s' = historyIndex (recordHistory s) \<and>
     isUndoRedo s' = isUndoRedo s"

text \<open>The part of the history that \<^verbatim>\<open>_recordHistory\<close> keeps before it pushes (its \<^verbatim>\<open>newHistory\<close>).\<close>

definition kept_history :: "NormalizedState \<Rightarrow> PersistedState list" where
  "kept_history s =
     (if historyIndex s \<ge> 0 then take (nat (historyIndex s + 1)) (history s) else history s)"

text \<open>
  \<open>rewound s j\<close>: the store \<open>j\<close> snapshots back from the at-present store \<open>s\<close>; the
  snapshot of \<open>s\<close> itself sits at the end of the list.
\<close>

definition rewound :: "NormalizedState \<Rightarrow> nat \<Rightarrow> NormalizedState" where
  "rewound s j =
     (applySnapshot (history s ! (length (history s) - j)) s)
        \<lparr> history := history s @ [createSnapshot s],
          historyIndex := int (length (history s) - j),
          isUndoRedo := False \<rparr>"

text \<open>
  A sample URL reader for concrete instances of \<open>parseUrl\<close>. It reads the scheme as the URL
  standard does (a letter, then letters, digits, \<open>+\<close>, \<open>-\<close>, \<open>.\<close>, up to a colon) and fails
  when there is none, as \<^verbatim>\<open>new URL(s)\<close> without a base does; it does not examine what
  follows the colon. \<^verbatim>\<open>new URL('ftp://example.com').protocol\<close> is \<^verbatim>\<open>'ftp:'\<close>.
\<close>

definition isSchemeStart :: "char \<Rightarrow> bool" where
  "isSchemeStart c \<longleftrightarrow>
     c \<in> set ''abcdefghijklmnopqrstuvwxyzABCDEFGHIJKLMNOPQRSTUVWXYZ''"

definition isSchemeChar :: "char \<Rightarrow> bool" where
  "isSchemeChar c \<longleftrightarrow> isSchemeStart c \<or> c \<in> set ''0123456789+-.''"

definition schemeReader :: "string \<Rightarrow> string option" where
  "schemeReader u =
     (case u of
        [] \<Rightarrow> None
      | c # cs \<Rightarrow>
          if isSchemeStart c then
            (case dropWhile isSchemeChar u of
               [] \<Rightarrow> None
             | d # ds \<Rightarrow>
                 if d = CHR '':'' then Some (toLowerCase (takeWhile isSchemeChar u) @ '':'')
                 else None)
          else None)"

text \<open>
  A small store for concrete instances: topic \<open>t1\<close> owns the sub-topics \<open>A\<close> (questions
  \<open>q1\<close>, \<open>q2\<close>) and \<open>B\<close> (question \<open>q3\<close>); topic \<open>t2\<close> is empty.
\<close>

definition sampleStore :: NormalizedState where
  "sampleStore =
     initialState
       \<lparr> topicsById :=
           [(''t1'', \<lparr> topic_id = ''t1'', topic_name = ''Arrays'', subTopicIds = [''A'', ''B''] \<rparr>),
            (''t2'', \<lparr> topic_id = ''t2'', topic_name = ''Stack'', subTopicIds = [] \<rparr>)],
         subTopicsById :=
           [(''A'', \<lparr> sub_id = ''A'', sub_name = ''Basic'', topicId = ''t1'',
                      questionIds = [''q1'', ''q2''] \<rparr>),
            (''B'', \<lparr> sub_id = ''B'', sub_name = ''Advanced'', topicId = ''t1'',
                      questionIds = [''q3''] \<rparr>)],
         questionsById :=
           [(''q1'', \<lparr> q_id = ''q1'', title = ''Two Sum'', difficulty = Some ''Easy'',
                       link = None \<rparr>),
            (''q2'', \<lparr> q_id = ''q2'', title = ''Valid Anagram'', difficulty = Some ''Easy'',
                       link = None \<rparr>),
            (''q3'', \<lparr> q_id = ''q3'', title = ''Group Anagrams'', difficulty = Some ''Medium'',
                       link = None \<rparr>)],
         topicOrder := [''t1'', ''t2''],
         expandedTopics := [(''t1'', True), (''t2'', True)],
         expandedSubTopics := [(''A'', True), (''B'', True)] \<rparr>"

text \<open>
  Two loaded states for concrete instances. \<open>shapeWithoutQuestions\<close> holds one topic and has
  no \<^verbatim>\<open>questionsById\<close> key. \<open>shapeWithDanglingTopic\<close> has all six keys, and its topic order
  names a topic \<open>ghost\<close> that the topic mapping does not hold.
\<close>

definition shapeWithoutQuestions :: json where
  "shapeWithoutQuestions =
     JObj [(''topicsById'',
              JObj [(''t1'', JObj [(''id'', JStr ''t1''), (''name'', JStr ''Arrays''),
                                   (''subTopicIds'', JArr [])])]),
           (''subTopicsById'', JObj []),
           (''topicOrder'', JArr [JStr ''t1'']),
           (''expandedTopics'', JObj [(''t1'', JBool True)]),
           (''expandedSubTopics'', JObj [])]"

definition shapeWithDanglingTopic :: json where
  "shapeWithDanglingTopic =
     JObj [(''topicsById'',
              JObj [(''t1'', JObj [(''id'', JStr ''t1''), (''name'', JStr ''Arrays''),
                                   (''subTopicIds'', JArr [])])]),
           (''subTopicsById'', JObj []),
           (''questionsById'', JObj []),
           (''topicOrder'', JArr [JStr ''t1'', JStr ''ghost'']),
           (''expandedTopics'', JObj [(''t1'', JBool True)]),
           (''expandedSubTopics'', JObj [])]"

section \<open>Facts about the history manager\<close>

lemma trimmed_last:
  assumes "0 < m"
  shows "(if length (k @ [c]) > m then drop (length (k @ [c]) - m) (k @ [c]) else k @ [c]) \<noteq> []
       \<and> last (if length (k @ [c]) > m then drop (length (k @ [c]) - m) (k @ [c]) else k @ [c]) = c"
  using assms by auto

lemma trimmed_length:
  "length (if length p > m then drop (length p - m) p else p) \<le> m"
  by auto

lemma recordHistory_history:
  assumes "\<not> isUndoRedo s"
  shows "history (recordHistory s) =
           (if length (kept_history s @ [createSnapshot s]) > MAX_HISTORY_SIZE
            then drop (length (kept_history s @ [createSnapshot s]) - MAX_HISTORY_SIZE)
                   (kept_history s @ [createSnapshot s])
            else kept_history s @ [createSnapshot s])"
  using assms by (simp add: recordHistory_def Let_def kept_history_def)

lemma recordHistory_index:
  "\<not> isUndoRedo s \<Longrightarrow> historyIndex (recordHistory s) = -1"
  by (simp add: recordHistory_def Let_def)

lemma recordHistory_last:
  assumes "\<not> isUndoRedo s"
  shows "history (recordHistory s) \<noteq> [] \<and> last (history (recordHistory s)) = createSnapshot s"
proof -
  have m: "0 < MAX_HISTORY_SIZE" by (simp add: MAX_HISTORY_SIZE_def)
  show ?thesis
    unfolding recordHistory_history [OF assms] by (rule trimmed_last [OF m])
qed

lemma recordHistory_length:
  assumes "\<not> isUndoRedo s"
  shows "length (history (recordHistory s)) \<le> MAX_HISTORY_SIZE"
  unfolding recordHistory_history [OF assms] by (rule trimmed_length)

lemma at_index_before_pushed:
  "xs \<noteq> [] \<Longrightarrow> at_index (xs @ [c]) (int (length xs) - 1) = Some (last xs)"
  by (cases xs rule: rev_cases) (simp_all add: at_index_def nth_append)

lemma at_index_pushed:
  "at_index (xs @ [c]) (int (length xs)) = Some c"
  by (simp add: at_index_def)

lemma undo_at_present:
  assumes "historyIndex s = -1" "history s \<noteq> []"
  shows "undo s = (applySnapshot (last (history s)) s)
            \<lparr> history := history s @ [createSnapshot s],
              historyIndex := int (length (history s)) - 1,
              isUndoRedo := False \<rparr>"
  using assms
  by (simp add: undo_def canUndo_def Let_def at_index_before_pushed applySnapshot_def)

lemma redo_undo_at_present:
  assumes "historyIndex s = -1" "history s \<noteq> []" "\<not> isUndoRedo s"
  shows "redo (undo s) = s"
  using assms
  apply (simp add: undo_at_present)
  apply (simp add: redo_def canRedo_def Let_def at_index_pushed applySnapshot_def createSnapshot_def)
  done

lemma undo_in_past:
  assumes "historyIndex s = int (Suc m)" "Suc m \<le> length (history s)"
  shows "undo s = (applySnapshot (history s ! m) s)
                     \<lparr> historyIndex := int m, isUndoRedo := False \<rparr>"
  using assms
  by (simp add: undo_def canUndo_def Let_def at_index_def applySnapshot_def)

lemma undo_at_floor: "historyIndex s = 0 \<Longrightarrow> undo s = s"
  by (simp add: undo_def canUndo_def)

lemma undo_steps:
  assumes "historyIndex s = -1" "\<not> isUndoRedo s"
  shows "1 \<le> j \<Longrightarrow> j \<le> length (history s) \<Longrightarrow> (undo ^^ j) s = rewound s j"
proof (induction j)
  case 0
  then show ?case by simp
next
  case (Suc j)
  show ?case
  proof (cases "j = 0")
    case True
    from Suc.prems have ne: "history s \<noteq> []" by auto
    have pred: "int (length (history s) - Suc 0) = int (length (history s)) - 1"
      using ne by (cases "history s") simp_all
    have "undo s = rewound s (Suc 0)"
      unfolding undo_at_present [OF assms(1) ne]
      using ne by (simp add: rewound_def last_conv_nth pred)
    with True show ?thesis by simp
  next
    case False
    with Suc have ih: "(undo ^^ j) s = rewound s j" by simp
    from Suc.prems obtain m where m: "length (history s) - j = Suc m"
      by (cases "length (history s) - j") simp_all
    then have m': "length (history s) - Suc j = m" and lt: "m < length (history s)"
      by simp_all
    have idx: "historyIndex (rewound s j) = int (Suc m)"
      by (simp add: rewound_def applySnapshot_def m)
    have len: "Suc m \<le> length (history (rewound s j))"
      using lt by (simp add: rewound_def applySnapshot_def)
    have "undo (rewound s j) = rewound s (Suc j)"
      unfolding undo_in_past [OF idx len]
      using lt by (simp add: rewound_def applySnapshot_def nth_append m')
    with ih show ?thesis by simp
  qed
qed

lemma undo_floor_steps:
  assumes "historyIndex s = -1" "\<not> isUndoRedo s" "history s \<noteq> []"
  shows "length (history s) \<le> k \<Longrightarrow> (undo ^^ k) s = rewound s (length (history s))"
proof (induction k)
  case 0
  with assms show ?case by simp
next
  case (Suc k)
  show ?case
  proof (cases "length (history s) \<le> k")
    case True
    with Suc have "(undo ^^ k) s = rewound s (length (history s))" by simp
    moreover have "undo (rewound s (length (history s))) = rewound s (length (history s))"
      by (rule undo_at_floor) (simp add: rewound_def)
    ultimately show ?thesis by simp
  next
    case False
    with Suc.prems have "Suc k = length (history s)" by simp
    with undo_steps [OF assms(1,2), of "Suc k"] show ?thesis by simp
  qed
qed

section \<open>Every operation either records a snapshot or leaves the store alone\<close>

lemma committed_updates [simp]:
  "committed s (recordHistory s)"
  "committed s s' \<Longrightarrow> committed s (s'\<lparr> topicsById := a \<rparr>)"
  "committed s s' \<Longrightarrow> committed s (s'\<lparr> subTopicsById := b \<rparr>)"
  "committed s s' \<Longrightarrow> committed s (s'\<lparr> questionsById := c \<rparr>)"
  "committed s s' \<Longrightarrow> committed s (s'\<lparr> topicOrder := d \<rparr>)"
  "committed s s' \<Longrightarrow> committed s (s'\<lparr> expandedTopics := e \<rparr>)"
  "committed s s' \<Longrightarrow> committed s (s'\<lparr> expandedSubTopics := f \<rparr>)"
  by (simp_all add: committed_def recordHistory_def Let_def)

lemma committed_props:
  assumes "\<not> isUndoRedo s" "committed s s'"
  shows "historyIndex s' = -1" "history s' \<noteq> []" "\<not> isUndoRedo s'"
    "last (history s') = createSnapshot s"
  using assms recordHistory_last [of s] recordHistory_index [of s]
  by (simp_all add: committed_def)

text \<open>
  After a recorded mutation, \<^verbatim>\<open>undo()\<close> puts back each persisted field of the store the
  snapshot was taken of.
\<close>

lemma undo_restores_fields:
  assumes "\<not> isUndoRedo s" "committed s s'"
  shows "topicsById (undo s') = topicsById s"
    and "subTopicsById (undo s') = subTopicsById s"
    and "questionsById (undo s') = questionsById s"
    and "topicOrder (undo s') = topicOrder s"
    and "expandedTopics (undo s') = expandedTopics s"
    and "expandedSubTopics (undo s') = expandedSubTopics s"
  using committed_props [OF assms]
  by (simp_all add: undo_at_present createSnapshot_def applySnapshot_def)

lemma addTopic_outcome:
  "addTopic n name s = (r, s') \<Longrightarrow> (success r \<and> committed s s') \<or> (\<not> success r \<and> s' = s)"
  by (auto simp: addTopic_def Let_def split: if_splits)

lemma updateTopic_outcome:
  "updateTopic t name s = (r, s') \<Longrightarrow> (success r \<and> committed s s') \<or> (\<not> success r \<and> s' = s)"
  by (auto simp: updateTopic_def Let_def split: if_splits option.splits)

lemma addSubTopic_outcome:
  "addSubTopic n t name s = (r, s') \<Longrightarrow> (success r \<and> committed s s') \<or> (\<not> success r \<and> s' = s)"
  by (auto simp: addSubTopic_def Let_def split: if_splits option.splits)

lemma updateSubTopic_outcome:
  "updateSubTopic t st name s = (r, s') \<Longrightarrow>
     (success r \<and> committed s s') \<or> (\<not> success r \<and> s' = s)"
  by (auto simp: updateSubTopic_def Let_def split: if_splits option.splits)

lemma addQuestion_outcome:
  "addQuestion P n t st q s = (r, s') \<Longrightarrow>
     (success r \<and> committed s s') \<or> (\<not> success r \<and> s' = s)"
  by (auto simp: addQuestion_def Let_def split: if_splits option.splits)

lemma updateQuestion_outcome:
  "updateQuestion P t st q u s = (r, s') \<Longrightarrow>
     (success r \<and> committed s s') \<or> (\<not> success r \<and> s' = s)"
  by (auto simp: updateQuestion_def Let_def split: if_splits option.splits)

lemma deleteTopic_outcome: "deleteTopic t s = s \<or> committed s (deleteTopic t s)"
  by (simp add: deleteTopic_def Let_def split: option.splits)

lemma deleteSubTopic_outcome: "deleteSubTopic t st s = s \<or> committed s (deleteSubTopic t st s)"
  by (simp add: deleteSubTopic_def Let_def split: option.splits)

lemma deleteQuestion_outcome:
  "deleteQuestion t st q s = s \<or> committed s (deleteQuestion t st q s)"
  by (simp add: deleteQuestion_def Let_def split: option.splits)

lemma moveSubTopicToTopic_outcome:
  "moveSubTopicToTopic st a b i s = s \<or> committed s (moveSubTopicToTopic st a b i s)"
  by (simp add: moveSubTopicToTopic_def Let_def split: option.splits)

lemma moveQuestionToSubTopic_outcome:
  "moveQuestionToSubTopic q a b i s = s \<or> committed s (moveQuestionToSubTopic q a b i s)"
  by (simp add: moveQuestionToSubTopic_def Let_def split: option.splits)

lemma reorderTopics_outcome: "reorderTopics i j s = Some s' \<Longrightarrow> committed s s'"
  by (auto simp: reorderTopics_def Let_def split: option.splits)

lemma reorderSubTopics_outcome: "reorderSubTopics t i j s = Some s' \<Longrightarrow> committed s s'"
  by (auto simp: reorderSubTopics_def Let_def split: option.splits)

lemma reorderQuestions_outcome: "reorderQuestions t st i j s = Some s' \<Longrightarrow> committed s s'"
  by (auto simp: reorderQuestions_def Let_def split: option.splits)

lemma apply_mutation_outcome:
  assumes "apply_mutation P M s = Some (r, s')"
  shows "(s' = s \<and> (\<forall>res. r = Some res \<longrightarrow> \<not> success res)) \<or> committed s s'"
proof (cases M)
  case (AddTopic n name)
  with assms addTopic_outcome [of n name s] show ?thesis by (auto split: prod.splits)
next
  case (UpdateTopic t name)
  with assms updateTopic_outcome [of t name s] show ?thesis by (auto split: prod.splits)
next
  case (DeleteTopic t)
  with assms deleteTopic_outcome [of t s] show ?thesis by auto
next
  case (ReorderTopics i j)
  with assms reorderTopics_outcome [of i j s] show ?thesis by auto
next
  case (AddSubTopic n t name)
  with assms addSubTopic_outcome [of n t name s] show ?thesis by (auto split: prod.splits)
next
  case (UpdateSubTopic t st name)
  with assms updateSubTopic_outcome [of t st name s] show ?thesis by (auto split: prod.splits)
next
  case (DeleteSubTopic t st)
  with assms deleteSubTopic_outcome [of t st s] show ?thesis by auto
next
  case (ReorderSubTopics t i j)
  with assms reorderSubTopics_outcome [of t i j s] show ?thesis by auto
next
  case (MoveSubTopicToTopic st a b i)
  with assms moveSubTopicToTopic_outcome [of st a b i s] show ?thesis by auto
next
  case (AddQuestion n t st q)
  with assms addQuestion_outcome [of P n t st q s] show ?thesis by (auto split: prod.splits)
next
  case (UpdateQuestion t st q u)
  with assms updateQuestion_outcome [of P t st q u s] show ?thesis by (auto split: prod.splits)
next
  case (DeleteQuestion t st q)
  with assms deleteQuestion_outcome [of t st q s] show ?thesis by auto
next
  case (ReorderQuestions t st i j)
  with assms reorderQuestions_outcome [of t st i j s] show ?thesis by auto
next
  case (MoveQuestionToSubTopic q a b i)
  with assms moveQuestionToSubTopic_outcome [of q a b i s] show ?thesis by auto
qed

text \<open>An operation that reports failure returns the store it was given, history included.\<close>

lemma failure_leaves_store_untouched:
  assumes "apply_mutation P M s = Some (Some res, s')" and "\<not> success res"
  shows "s' = s"
proof (cases M)
  case (AddTopic n name)
  with assms addTopic_outcome [of n name s res s'] show ?thesis by (auto split: prod.splits)
next
  case (UpdateTopic t name)
  with assms updateTopic_outcome [of t name s res s'] show ?thesis by (auto split: prod.splits)
next
  case (AddSubTopic n t name)
  with assms addSubTopic_outcome [of n t name s res s'] show ?thesis
    by (auto split: prod.splits)
next
  case (UpdateSubTopic t st name)
  with assms updateSubTopic_outcome [of t st name s res s'] show ?thesis
    by (auto split: prod.splits)
next
  case (AddQuestion n t st q)
  with assms addQuestion_outcome [of P n t st q s res s'] show ?thesis
    by (auto split: prod.splits)
next
  case (UpdateQuestion t st q u)
  with assms updateQuestion_outcome [of P t st q u s res s'] show ?thesis
    by (auto split: prod.splits)
qed (use assms in auto)

text \<open>
  The deletions and the moves return the store they were given when an id they look up is
  in no mapping.
\<close>

lemma not_found_leaves_store_untouched:
  "map_of (topicsById s) t = None \<Longrightarrow> deleteTopic t s = s"
  "map_of (topicsById s) t = None \<or> map_of (subTopicsById s) st = None
     \<Longrightarrow> deleteSubTopic t st s = s"
  "map_of (questionsById s) q = None \<or> map_of (subTopicsById s) st = None
     \<Longrightarrow> deleteQuestion t st q s = s"
  "map_of (topicsById s) a = None \<or> map_of (topicsById s) b = None
     \<or> map_of (subTopicsById s) st = None
     \<Longrightarrow> moveSubTopicToTopic st a b i s = s"
  "map_of (subTopicsById s) c = None \<or> map_of (subTopicsById s) d = None
     \<or> map_of (questionsById s) q = None
     \<Longrightarrow> moveQuestionToSubTopic q c d i s = s"
  by (auto simp: deleteTopic_def deleteSubTopic_def deleteQuestion_def moveSubTopicToTopic_def
      moveQuestionToSubTopic_def split: option.splits)

lemma undo_flag: "\<not> isUndoRedo s \<Longrightarrow> \<not> isUndoRedo (undo s)"
  by (simp add: undo_def Let_def applySnapshot_def split: option.splits)

lemma apply_mutation_flag:
  "apply_mutation P M s = Some (r, s') \<Longrightarrow> isUndoRedo s' = isUndoRedo s"
  using apply_mutation_outcome [of P M s r s'] by (auto simp: committed_def)

lemma redo_at_present: "historyIndex s = -1 \<Longrightarrow> \<not> canRedo s \<and> redo s = s"
  by (simp add: redo_def canRedo_def)

lemma recordHistory_suffix:
  assumes "\<not> isUndoRedo s"
  shows "\<exists>k. history (recordHistory s) = drop k (kept_history s @ [createSnapshot s])"
proof (cases "length (kept_history s @ [createSnapshot s]) > MAX_HISTORY_SIZE")
  case True
  then show ?thesis unfolding recordHistory_history [OF assms] by (simp only: if_True) blast
next
  case False
  have "kept_history s @ [createSnapshot s] = drop 0 (kept_history s @ [createSnapshot s])"
    by simp
  with False show ?thesis unfolding recordHistory_history [OF assms] by (simp only: if_False) blast
qed

section \<open>Facts about containers\<close>

lemma map_of_fold_delete:
  "map_of (fold AList.delete ks al) k = (if k \<in> set ks then None else map_of al k)"
  by (induction ks arbitrary: al) (simp_all add: delete_conv')

lemma spliceInsert_front: "spliceInsert 0 x xs = x # xs"
  by (simp add: spliceInsert_def spliceStart_def)

lemma count_list_spliceInsert:
  "count_list (spliceInsert i x xs) x = Suc (count_list xs x)"
proof -
  have "count_list xs x = count_list (take k xs) x + count_list (drop k xs) x" for k
    by (metis append_take_drop_id count_list_append)
  then show ?thesis
    by (simp add: spliceInsert_def Let_def count_list_append)
qed

lemma reorder_unknown_container:
  "map_of (topicsById s) t = None \<Longrightarrow> reorderSubTopics t i j s = Some (recordHistory s)"
  "map_of (subTopicsById s) st = None \<Longrightarrow> reorderQuestions t st i j s = Some (recordHistory s)"
  by (simp_all add: reorderSubTopics_def reorderQuestions_def recordHistory_def Let_def)

section \<open>Facts about the validity predicate\<close>

lemma valid_is_object:
  "isValidPersistedState state \<Longrightarrow> jsTruthy state \<and> typeofObject state"
  by (simp add: isValidPersistedState_def split: if_splits)

lemma getProp_JObj: "getProp (JObj fs) k = map_of fs k"
  by (simp add: getProp_def)

lemma valid_JObj:
  "isValidPersistedState (JObj fs) \<longleftrightarrow>
     isContainer (map_of fs ''topicsById'')
     \<and> isContainer (map_of fs ''subTopicsById'')
     \<and> isContainer (map_of fs ''questionsById'')
     \<and> isContainer (map_of fs ''expandedTopics'')
     \<and> isContainer (map_of fs ''expandedSubTopics'')
     \<and> (\<exists>ids. map_of fs ''topicOrder'' = Some (JArr ids)
            \<and> list_all
                (\<lambda>i. case i of
                       JStr k \<Rightarrow>
                         (case getProp (the (map_of fs ''topicsById'')) k of
                            Some v \<Rightarrow> jsTruthy v
                          | None \<Rightarrow> False)
                     | _ \<Rightarrow> False)
                ids)"
proof -
  have t: "jsTruthy (JObj fs)" "typeofObject (JObj fs)"
    by (simp_all add: jsTruthy_def typeofObject_def)
  show ?thesis
  proof (cases "map_of fs ''topicOrder''")
    case None
    then show ?thesis by (simp add: isValidPersistedState_def getProp_JObj t)
  next
    case (Some v)
    then show ?thesis
      by (cases v) (auto simp add: isValidPersistedState_def getProp_JObj t)
  qed
qed

lemma entry_ok:
  "(case i of JStr k \<Rightarrow> (case p k of Some v \<Rightarrow> jsTruthy v | None \<Rightarrow> False) | _ \<Rightarrow> False)
     \<Longrightarrow> \<exists>k v. i = JStr k \<and> p k = Some v \<and> jsTruthy v"
  by (cases i) (auto split: option.splits)

text \<open>
  What the predicate demands of a state it accepts: an object whose five mapping keys hold
  objects or arrays, whose \<^verbatim>\<open>topicOrder\<close> is an array, and every element of that array is a
  string with a truthy entry under \<^verbatim>\<open>topicsById\<close>.
\<close>

lemma isValidPersistedState_only_if:
  assumes "isValidPersistedState state"
  shows "\<exists>fs ids. state = JObj fs
           \<and> isContainer (map_of fs ''topicsById'')
           \<and> isContainer (map_of fs ''subTopicsById'')
           \<and> isContainer (map_of fs ''questionsById'')
           \<and> map_of fs ''topicOrder'' = Some (JArr ids)
           \<and> isContainer (map_of fs ''expandedTopics'')
           \<and> isContainer (map_of fs ''expandedSubTopics'')
           \<and> (\<forall>i \<in> set ids. \<exists>k v. i = JStr k
                  \<and> getProp (the (map_of fs ''topicsById'')) k = Some v \<and> jsTruthy v)"
proof (cases state)
  case (JObj fs)
  with assms valid_JObj [of fs] obtain ids where
    "isContainer (map_of fs ''topicsById'')" "isContainer (map_of fs ''subTopicsById'')"
    "isContainer (map_of fs ''questionsById'')" "isContainer (map_of fs ''expandedTopics'')"
    "isContainer (map_of fs ''expandedSubTopics'')" "map_of fs ''topicOrder'' = Some (JArr ids)"
    and all: "list_all
                (\<lambda>i. case i of
                       JStr k \<Rightarrow>
                         (case getProp (the (map_of fs ''topicsById'')) k of
                            Some v \<Rightarrow> jsTruthy v
                          | None \<Rightarrow> False)
                     | _ \<Rightarrow> False)
                ids"
    by blast
  moreover from all have "\<forall>i \<in> set ids. \<exists>k v. i = JStr k
                  \<and> getProp (the (map_of fs ''topicsById'')) k = Some v \<and> jsTruthy v"
    unfolding list_all_iff using entry_ok by blast
  ultimately show ?thesis using JObj by blast
next
  case (JArr xs)
  have g: "getProp (JArr xs) ''topicsById'' = None"
    by (simp add: getProp_def arrayIndex_def digitValue_def)
  have "\<not> isValidPersistedState (JArr xs)"
    by (simp add: isValidPersistedState_def g isContainer_def)
  with assms JArr show ?thesis by simp
qed (use valid_is_object [OF assms] in \<open>simp_all add: jsTruthy_def typeofObject_def\<close>)

lemma missing_questionsById_rejected:
  "getProp state ''questionsById'' = None \<Longrightarrow> \<not> isValidPersistedState state"
  by (simp add: isValidPersistedState_def isContainer_def)

section \<open>Concrete stores\<close>

lemma trim_Arrays: "trim ''Arrays'' = ''Arrays''"
  by (simp add: trim_def isWhiteSpace_def)

lemma addTopic_Arrays:
  "addTopic ''t1'' ''Arrays'' initialState =
     (OpResult True None,
      initialState
        \<lparr> topicsById :=
            [(''t1'', \<lparr> topic_id = ''t1'', topic_name = ''Arrays'', subTopicIds = [] \<rparr>)],
          topicOrder := [''t1''],
          expandedTopics := [(''t1'', True)],
          history := [createSnapshot initialState] \<rparr>)"
  by (simp add: addTopic_def validateName_def getTopicNames_def trim_Arrays initialState_def
      recordHistory_def Let_def MAX_HISTORY_SIZE_def createSnapshot_def)

lemma trim_Graphs: "trim ''Graphs'' = ''Graphs''"
  by (simp add: trim_def isWhiteSpace_def)

lemma undo_addTopic_Arrays:
  "undo (snd (addTopic ''t1'' ''Arrays'' initialState)) =
     initialState
       \<lparr> history := [createSnapshot initialState,
                      createSnapshot (snd (addTopic ''t1'' ''Arrays'' initialState))],
         historyIndex := 0 \<rparr>"
  unfolding addTopic_Arrays snd_conv
  by (simp add: undo_def canUndo_def Let_def at_index_def applySnapshot_def
      createSnapshot_def initialState_def)

lemma addTopic_Graphs_after_undo:
  "addTopic ''t2'' ''Graphs'' (undo (snd (addTopic ''t1'' ''Arrays'' initialState))) =
     (OpResult True None,
      initialState
        \<lparr> topicsById :=
            [(''t2'', \<lparr> topic_id = ''t2'', topic_name = ''Graphs'', subTopicIds = [] \<rparr>)],
          topicOrder := [''t2''],
          expandedTopics := [(''t2'', True)],
          history := [createSnapshot initialState, createSnapshot initialState] \<rparr>)"
  unfolding undo_addTopic_Arrays
  by (simp add: addTopic_def validateName_def getTopicNames_def trim_Graphs initialState_def
      recordHistory_def Let_def MAX_HISTORY_SIZE_def createSnapshot_def)

text \<open>A store whose history is full: recording once more keeps twenty entries.\<close>

lemma full_history_stays_full:
  "length (history (recordHistory
      (initialState\<lparr> history := replicate 20 (createSnapshot initialState) \<rparr>))) = 20"
  by (simp add: recordHistory_def Let_def MAX_HISTORY_SIZE_def initialState_def)

lemma sampleStore_subs:
  "map_of (subTopicsById sampleStore) ''A''
     = Some \<lparr> sub_id = ''A'', sub_name = ''Basic'', topicId = ''t1'',
              questionIds = [''q1'', ''q2''] \<rparr>"
  "map_of (subTopicsById sampleStore) ''B''
     = Some \<lparr> sub_id = ''B'', sub_name = ''Advanced'', topicId = ''t1'',
              questionIds = [''q3''] \<rparr>"
  by (simp_all add: sampleStore_def initialState_def)

lemma sampleStore_topics:
  "map_of (topicsById sampleStore) ''t1''
     = Some \<lparr> topic_id = ''t1'', topic_name = ''Arrays'', subTopicIds = [''A'', ''B''] \<rparr>"
  "map_of (topicsById sampleStore) ''t2''
     = Some \<lparr> topic_id = ''t2'', topic_name = ''Stack'', subTopicIds = [] \<rparr>"
  by (simp_all add: sampleStore_def initialState_def)

lemma sampleStore_q1:
  "map_of (questionsById sampleStore) ''q1''
     = Some \<lparr> q_id = ''q1'', title = ''Two Sum'', difficulty = Some ''Easy'', link = None \<rparr>"
  by (simp add: sampleStore_def initialState_def)

lemma sampleStore_q1_owner:
  "\<forall>C c. map_of (subTopicsById sampleStore) C = Some c \<and> ''q1'' \<in> set (questionIds c)
         \<longrightarrow> C = ''A''"
  by (auto simp: sampleStore_def initialState_def split: if_splits)

lemma sampleStore_flag: "\<not> isUndoRedo sampleStore"
  by (simp add: sampleStore_def initialState_def)

lemma sampleStore_unknown:
  "map_of (topicsById sampleStore) ''nope'' = None"
  "map_of (subTopicsById sampleStore) ''nope'' = None"
  by (simp_all add: sampleStore_def initialState_def)

lemma recordHistory_sampleStore:
  "recordHistory sampleStore = sampleStore\<lparr> history := [createSnapshot sampleStore] \<rparr>"
  by (simp add: recordHistory_def Let_def MAX_HISTORY_SIZE_def sampleStore_flag)
     (simp add: sampleStore_def initialState_def)

lemma trim_samples:
  "trim ''  '' = []"
  "trim ''https://leetcode.com/problems/two-sum '' = ''https://leetcode.com/problems/two-sum''"
  "trim ''not a url'' = ''not a url''"
  "trim ''ftp://example.com'' = ''ftp://example.com''"
  "trim ''arrays'' = ''arrays''"
  by (simp_all add: trim_def isWhiteSpace_def)

lemma schemeReader_samples:
  "schemeReader ''https://leetcode.com/problems/two-sum'' = Some ''https:''"
  "schemeReader ''not a url'' = None"
  "schemeReader ''ftp://example.com'' = Some ''ftp:''"
  by (simp_all add: schemeReader_def isSchemeStart_def isSchemeChar_def toLowerCase_def
      lowerChar_def)

text \<open>
  The duplicate check ignores case: with a topic \<open>Arrays\<close> in the store, adding \<open>arrays\<close>
  fails and the store, history included, is the one before.
\<close>

lemma addTopic_duplicate_rejected:
  "addTopic ''t9'' ''arrays'' sampleStore
     = (OpResult False (Some ''Topic name already exists''), sampleStore)"
  by (simp add: addTopic_def validateName_def trim_samples getTopicNames_def Let_def)
     (simp add: sampleStore_def initialState_def toLowerCase_def lowerChar_def)

section \<open>Claims\<close>

text \<open>
  C1. Undo/redo round trip. Let a mutation \<open>M\<close> be applied to a store \<open>s\<close> (whose
  \<^verbatim>\<open>_isUndoRedo\<close> flag is down, as it is between operations) and let it take effect: the store
  changed, or the operation reported success. Then undo is available, \<^verbatim>\<open>undo()\<close> restores
  exactly the six persisted fields that \<open>s\<close> had (the three entity mappings, the topic order
  and the two expand maps), and \<^verbatim>\<open>undo()\<close> followed by \<^verbatim>\<open>redo()\<close> gives back the whole store as
  it was after \<open>M\<close>. It holds from the at-present state and from any other cursor position.
\<close>

theorem undo_redo_round_trip:
  assumes "\<not> isUndoRedo s"
    and "apply_mutation P M s = Some (r, s')"
    and "s' \<noteq> s \<or> (\<exists>res. r = Some res \<and> success res)"
  shows "canUndo s' \<and> createSnapshot (undo s') = createSnapshot s \<and> redo (undo s') = s'"
proof -
  from apply_mutation_outcome [OF assms(2)] assms(3) have c: "committed s s'" by auto
  note p = committed_props [OF assms(1) c]
  have "canUndo s'" using p(1,2) by (simp add: canUndo_def)
  moreover have "createSnapshot (undo s') = createSnapshot s"
    using p by (simp add: undo_at_present createSnapshot_def applySnapshot_def)
  moreover have "redo (undo s') = s'"
    using p(1,2,3) by (rule redo_undo_at_present)
  ultimately show ?thesis by simp
qed

theorem undo_redo_round_trip_witness:
  "\<not> isUndoRedo initialState
   \<and> apply_mutation schemeReader (AddTopic ''t1'' ''Arrays'') initialState
       = Some (Some (OpResult True None), snd (addTopic ''t1'' ''Arrays'' initialState))
   \<and> snd (addTopic ''t1'' ''Arrays'' initialState) \<noteq> initialState
   \<and> canUndo (snd (addTopic ''t1'' ''Arrays'' initialState))
   \<and> createSnapshot (undo (snd (addTopic ''t1'' ''Arrays'' initialState)))
       = createSnapshot initialState
   \<and> redo (undo (snd (addTopic ''t1'' ''Arrays'' initialState)))
       = snd (addTopic ''t1'' ''Arrays'' initialState)"
  using undo_redo_round_trip [of initialState schemeReader "AddTopic ''t1'' ''Arrays''"
      "Some (OpResult True None)" "snd (addTopic ''t1'' ''Arrays'' initialState)"]
  by (simp add: addTopic_Arrays) (simp add: initialState_def)

text \<open>
  C3. Redo-stack invalidation. Apply \<open>M1\<close>, undo, then apply \<open>M2\<close>. If \<open>M2\<close> takes effect (the
  store changed, or the operation reported success), then \<^verbatim>\<open>canRedo()\<close> is false and
  \<^verbatim>\<open>redo()\<close> returns the store as it is.
\<close>

theorem redo_invalidated_by_new_edit:
  assumes "\<not> isUndoRedo s"
    and "apply_mutation P M1 s = Some (r1, s1)"
    and "apply_mutation P M2 (undo s1) = Some (r2, s3)"
    and "s3 \<noteq> undo s1 \<or> (\<exists>res. r2 = Some res \<and> success res)"
  shows "\<not> canRedo s3 \<and> redo s3 = s3"
proof -
  have f1: "\<not> isUndoRedo s1" using apply_mutation_flag [OF assms(2)] assms(1) by simp
  then have f2: "\<not> isUndoRedo (undo s1)" by (rule undo_flag)
  from apply_mutation_outcome [OF assms(3)] assms(4) have "committed (undo s1) s3" by auto
  from committed_props(1) [OF f2 this] show ?thesis by (rule redo_at_present)
qed

theorem redo_invalidated_by_new_edit_witness:
  "\<not> isUndoRedo initialState
   \<and> apply_mutation schemeReader (AddTopic ''t1'' ''Arrays'') initialState
       = Some (Some (OpResult True None), snd (addTopic ''t1'' ''Arrays'' initialState))
   \<and> canRedo (undo (snd (addTopic ''t1'' ''Arrays'' initialState)))
   \<and> apply_mutation schemeReader (AddTopic ''t2'' ''Graphs'')
         (undo (snd (addTopic ''t1'' ''Arrays'' initialState)))
       = Some (Some (OpResult True None),
               snd (addTopic ''t2'' ''Graphs'' (undo (snd (addTopic ''t1'' ''Arrays'' initialState)))))
   \<and> \<not> canRedo (snd (addTopic ''t2'' ''Graphs'' (undo (snd (addTopic ''t1'' ''Arrays'' initialState)))))
   \<and> redo (snd (addTopic ''t2'' ''Graphs'' (undo (snd (addTopic ''t1'' ''Arrays'' initialState)))))
       = snd (addTopic ''t2'' ''Graphs'' (undo (snd (addTopic ''t1'' ''Arrays'' initialState))))"
proof -
  let ?s1 = "snd (addTopic ''t1'' ''Arrays'' initialState)"
  let ?s3 = "snd (addTopic ''t2'' ''Graphs'' (undo ?s1))"
  have h1: "\<not> isUndoRedo initialState" by (simp add: initialState_def)
  have h2: "apply_mutation schemeReader (AddTopic ''t1'' ''Arrays'') initialState
              = Some (Some (OpResult True None), ?s1)"
    by (simp add: addTopic_Arrays)
  have h3: "apply_mutation schemeReader (AddTopic ''t2'' ''Graphs'') (undo ?s1)
              = Some (Some (OpResult True None), ?s3)"
    by (simp add: addTopic_Graphs_after_undo)
  have h4: "canRedo (undo ?s1)"
    by (simp add: undo_addTopic_Arrays canRedo_def)
  have "\<not> canRedo ?s3 \<and> redo ?s3 = ?s3"
    by (rule redo_invalidated_by_new_edit [OF h1 h2 h3]) simp
  with h1 h2 h3 h4 show ?thesis by blast
qed

text \<open>
  C6. History bound. Let \<open>t\<close> be a store right after a snapshot of \<open>s\<close> was recorded
  (\<open>committed s t\<close>). Its snapshot list has at most \<open>MAX_HISTORY_SIZE = 20\<close> entries and is
  a suffix of the kept entries followed by the new snapshot, so the oldest entries are the
  ones evicted. The \<open>j\<close>-th \<^verbatim>\<open>undo()\<close> restores the \<open>j\<close>-th most recent snapshot, and
  once every retained snapshot has been walked the cursor stays at index \<open>0\<close>: twenty or
  more calls of \<^verbatim>\<open>undo()\<close> all end in the same store, the oldest retained snapshot, where
  \<^verbatim>\<open>canUndo()\<close> is false.
\<close>

theorem history_bound:
  assumes "\<not> isUndoRedo s" and "committed s t"
  shows "length (history t) \<le> MAX_HISTORY_SIZE
       \<and> (\<exists>k. history t = drop k (kept_history s @ [createSnapshot s]))
       \<and> (\<forall>j. 1 \<le> j \<and> j \<le> length (history t) \<longrightarrow>
              createSnapshot ((undo ^^ j) t) = history t ! (length (history t) - j))
       \<and> (\<forall>k. MAX_HISTORY_SIZE \<le> k \<longrightarrow> (undo ^^ k) t = (undo ^^ MAX_HISTORY_SIZE) t)
       \<and> \<not> canUndo ((undo ^^ MAX_HISTORY_SIZE) t)
       \<and> historyIndex ((undo ^^ MAX_HISTORY_SIZE) t) = 0
       \<and> createSnapshot ((undo ^^ MAX_HISTORY_SIZE) t) = hd (history t)"
proof -
  note p = committed_props [OF assms]
  have h: "history t = history (recordHistory s)" using assms(2) by (simp add: committed_def)
  have len: "length (history t) \<le> MAX_HISTORY_SIZE"
    unfolding h by (rule recordHistory_length [OF assms(1)])
  have suf: "\<exists>k. history t = drop k (kept_history s @ [createSnapshot s])"
    unfolding h by (rule recordHistory_suffix [OF assms(1)])
  have steps: "createSnapshot ((undo ^^ j) t) = history t ! (length (history t) - j)"
    if "1 \<le> j \<and> j \<le> length (history t)" for j
    using undo_steps [OF p(1) p(3), of j] that
    by (simp add: rewound_def createSnapshot_def applySnapshot_def)
  have floor: "(undo ^^ k) t = rewound t (length (history t))" if "MAX_HISTORY_SIZE \<le> k" for k
    using undo_floor_steps [OF p(1) p(3) p(2), of k] that len by simp
  have beyond: "(undo ^^ k) t = (undo ^^ MAX_HISTORY_SIZE) t" if "MAX_HISTORY_SIZE \<le> k" for k
    using floor [OF that] floor [of MAX_HISTORY_SIZE] by simp
  have at: "(undo ^^ MAX_HISTORY_SIZE) t = rewound t (length (history t))"
    using floor [of MAX_HISTORY_SIZE] by simp
  have c: "\<not> canUndo (rewound t (length (history t)))"
    by (simp add: canUndo_def rewound_def)
  have i: "historyIndex (rewound t (length (history t))) = 0"
    by (simp add: rewound_def)
  have d: "createSnapshot (rewound t (length (history t))) = hd (history t)"
    using p(2) by (simp add: rewound_def createSnapshot_def applySnapshot_def hd_conv_nth)
  show ?thesis using len suf steps beyond c i d unfolding at by blast
qed

theorem history_bound_witness:
  "\<not> isUndoRedo (initialState\<lparr> history := replicate 20 (createSnapshot initialState) \<rparr>)
   \<and> length (history (initialState\<lparr> history := replicate 20 (createSnapshot initialState) \<rparr>)) = 20
   \<and> length (history (recordHistory
        (initialState\<lparr> history := replicate 20 (createSnapshot initialState) \<rparr>))) = 20
   \<and> createSnapshot ((undo ^^ 20) (recordHistory
        (initialState\<lparr> history := replicate 20 (createSnapshot initialState) \<rparr>)))
     = history (recordHistory
        (initialState\<lparr> history := replicate 20 (createSnapshot initialState) \<rparr>)) ! 0
   \<and> (undo ^^ 21) (recordHistory
        (initialState\<lparr> history := replicate 20 (createSnapshot initialState) \<rparr>))
     = (undo ^^ 20) (recordHistory
        (initialState\<lparr> history := replicate 20 (createSnapshot initialState) \<rparr>))
   \<and> \<not> canUndo ((undo ^^ 20) (recordHistory
        (initialState\<lparr> history := replicate 20 (createSnapshot initialState) \<rparr>)))"
proof -
  let ?s = "initialState\<lparr> history := replicate 20 (createSnapshot initialState) \<rparr>"
  let ?t = "recordHistory ?s"
  have h1: "\<not> isUndoRedo ?s" by (simp add: initialState_def)
  have h2: "committed ?s ?t" by simp
  have h3: "length (history ?s) = 20" by simp
  have h4: "length (history ?t) = 20" by (rule full_history_stays_full)
  have m: "MAX_HISTORY_SIZE = 20" by (simp add: MAX_HISTORY_SIZE_def)
  have le: "1 \<le> (20::nat) \<and> (20::nat) \<le> length (history ?t)" "MAX_HISTORY_SIZE \<le> 21"
    by (simp_all add: h4 m)
  note b = history_bound [OF h1 h2]
  from b le(1) have "createSnapshot ((undo ^^ 20) ?t) = history ?t ! (length (history ?t) - 20)"
    by blast
  then have j: "createSnapshot ((undo ^^ 20) ?t) = history ?t ! 0"
    by (simp only: h4 diff_self_eq_0)
  from b le(2) have "(undo ^^ 21) ?t = (undo ^^ MAX_HISTORY_SIZE) ?t" by blast
  then have k: "(undo ^^ 21) ?t = (undo ^^ 20) ?t" unfolding m .
  from b have "\<not> canUndo ((undo ^^ MAX_HISTORY_SIZE) ?t)" by blast
  then have c: "\<not> canUndo ((undo ^^ 20) ?t)" unfolding m .
  from h1 h3 h4 j k c show ?thesis by blast
qed

text \<open>
  C2. A failed operation must leave graph and history as they were. The operations that
  return a result do so (\<open>failure_leaves_store_untouched\<close>, \<open>addTopic_duplicate_rejected\<close>), and
  so do the deletions and moves (\<open>not_found_leaves_store_untouched\<close>). \<^verbatim>\<open>reorderSubTopics\<close> and \<^verbatim>\<open>reorderQuestions\<close> do not: called
  with a container id that is in no mapping they leave the graph alone but have already
  pushed a snapshot. Here they run on \<open>sampleStore\<close>, whose history is empty, with the
  unknown id \<open>nope\<close>; \<^verbatim>\<open>deleteSubTopic\<close> with the same unknown topic id returns the store
  untouched.
\<close>

theorem reorder_unknown_container_records_history:
  "map_of (topicsById sampleStore) ''nope'' = None
   \<and> history sampleStore = []
   \<and> reorderSubTopics ''nope'' 0 1 sampleStore
       = Some (sampleStore\<lparr> history := [createSnapshot sampleStore] \<rparr>)
   \<and> map_of (subTopicsById sampleStore) ''nope'' = None
   \<and> reorderQuestions ''t1'' ''nope'' 0 1 sampleStore
       = Some (sampleStore\<lparr> history := [createSnapshot sampleStore] \<rparr>)
   \<and> deleteSubTopic ''nope'' ''A'' sampleStore = sampleStore"
proof -
  have h: "history sampleStore = []" by (simp add: sampleStore_def initialState_def)
  have d: "deleteSubTopic ''nope'' ''A'' sampleStore = sampleStore"
    by (simp add: deleteSubTopic_def sampleStore_unknown)
  show ?thesis
    using h d by (simp add: reorder_unknown_container sampleStore_unknown recordHistory_sampleStore)
qed

text \<open>
  C4. Cross-container question move. Sub-topic \<open>A\<close> holds \<open>[q1, q2]\<close>, a different sub-topic
  \<open>B\<close> holds \<open>[q3]\<close>, question \<open>q1\<close> exists, \<open>q1\<close> and \<open>q2\<close> are different questions, and before
  the move no sub-topic other than \<open>A\<close> lists \<open>q1\<close>. After
  \<^verbatim>\<open>moveQuestionToSubTopic(q1, A, B, 0)\<close> sub-topic \<open>A\<close> holds \<open>[q2]\<close>, \<open>B\<close> holds \<open>[q1, q3]\<close>, the
  sub-topics that list \<open>q1\<close> are exactly \<open>B\<close>, and the question records are untouched.
\<close>

theorem cross_container_question_move:
  assumes "map_of (subTopicsById s) A = Some a" and "questionIds a = [q1, q2]"
    and "map_of (subTopicsById s) B = Some b" and "questionIds b = [q3]"
    and "A \<noteq> B" and "map_of (questionsById s) q1 = Some q" and "q1 \<noteq> q2"
    and "\<forall>C c. map_of (subTopicsById s) C = Some c \<and> q1 \<in> set (questionIds c) \<longrightarrow> C = A"
  shows "map_option questionIds (map_of (subTopicsById (moveQuestionToSubTopic q1 A B 0 s)) A)
           = Some [q2]
       \<and> map_option questionIds (map_of (subTopicsById (moveQuestionToSubTopic q1 A B 0 s)) B)
           = Some [q1, q3]
       \<and> (\<forall>C c. map_of (subTopicsById (moveQuestionToSubTopic q1 A B 0 s)) C = Some c \<longrightarrow>
             (q1 \<in> set (questionIds c) \<longleftrightarrow> C = B))
       \<and> questionsById (moveQuestionToSubTopic q1 A B 0 s) = questionsById s"
proof -
  have sub: "map_of (subTopicsById (recordHistory s)) = map_of (subTopicsById s)"
    and qs: "questionsById (recordHistory s) = questionsById s"
    by (simp_all add: recordHistory_def Let_def)
  have m: "map_of (subTopicsById (moveQuestionToSubTopic q1 A B 0 s)) =
             (map_of (subTopicsById s))
               (A \<mapsto> a\<lparr> questionIds := [q2] \<rparr>, B \<mapsto> b\<lparr> questionIds := [q1, q3] \<rparr>)"
    using assms(1-7)
    by (simp add: moveQuestionToSubTopic_def Let_def update_conv' sub spliceInsert_front)
  have q: "questionsById (moveQuestionToSubTopic q1 A B 0 s) = questionsById s"
    using assms(1-7) by (simp add: moveQuestionToSubTopic_def Let_def qs)
  show ?thesis
    unfolding m q using assms(5,7,8) by (auto split: if_splits)
qed

theorem cross_container_question_move_witness:
  "map_option questionIds
     (map_of (subTopicsById (moveQuestionToSubTopic ''q1'' ''A'' ''B'' 0 sampleStore)) ''A'')
     = Some [''q2'']
   \<and> map_option questionIds
       (map_of (subTopicsById (moveQuestionToSubTopic ''q1'' ''A'' ''B'' 0 sampleStore)) ''B'')
     = Some [''q1'', ''q3'']"
proof -
  have a: "questionIds \<lparr> sub_id = ''A'', sub_name = ''Basic'', topicId = ''t1'',
             questionIds = [''q1'', ''q2''] \<rparr> = [''q1'', ''q2'']"
    and b: "questionIds \<lparr> sub_id = ''B'', sub_name = ''Advanced'', topicId = ''t1'',
             questionIds = [''q3''] \<rparr> = [''q3'']"
    and ne: "''A'' \<noteq> ''B''" "''q1'' \<noteq> ''q2''"
    by simp_all
  from cross_container_question_move [OF sampleStore_subs(1) a sampleStore_subs(2) b ne(1)
      sampleStore_q1 ne(2) sampleStore_q1_owner]
  show ?thesis by blast
qed

text \<open>
  C5. Cascade delete. For a topic that exists, \<^verbatim>\<open>deleteTopic\<close> removes the topic's record,
  every sub-topic the topic lists, and every question those sub-topics list, and takes the
  topic's id out of the topic order. Afterwards \<^verbatim>\<open>canUndo()\<close> is true and after \<^verbatim>\<open>undo()\<close> the
  three entity mappings, the topic order and the two expand maps of the store are the ones
  it had before the deletion, so the topic, its sub-topics and their questions are back.
\<close>

theorem cascade_delete:
  assumes "map_of (topicsById s) tId = Some topic" and "\<not> isUndoRedo s"
  shows "map_of (topicsById (deleteTopic tId s)) tId = None
       \<and> (\<forall>st \<in> set (subTopicIds topic). map_of (subTopicsById (deleteTopic tId s)) st = None)
       \<and> (\<forall>st \<in> set (subTopicIds topic). \<forall>sub. map_of (subTopicsById s) st = Some sub \<longrightarrow>
            (\<forall>q \<in> set (questionIds sub). map_of (questionsById (deleteTopic tId s)) q = None))
       \<and> tId \<notin> set (topicOrder (deleteTopic tId s))
       \<and> canUndo (deleteTopic tId s)
       \<and> topicsById (undo (deleteTopic tId s)) = topicsById s
       \<and> subTopicsById (undo (deleteTopic tId s)) = subTopicsById s
       \<and> questionsById (undo (deleteTopic tId s)) = questionsById s
       \<and> topicOrder (undo (deleteTopic tId s)) = topicOrder s
       \<and> expandedTopics (undo (deleteTopic tId s)) = expandedTopics s
       \<and> expandedSubTopics (undo (deleteTopic tId s)) = expandedSubTopics s
       \<and> map_of (topicsById (undo (deleteTopic tId s))) tId = Some topic"
proof -
  have t: "map_of (topicsById (deleteTopic tId s)) tId = None"
    using assms(1) by (simp add: deleteTopic_def Let_def delete_conv')
  have st: "map_of (subTopicsById (deleteTopic tId s)) st = None"
    if "st \<in> set (subTopicIds topic)" for st
    using assms(1) that by (simp add: deleteTopic_def Let_def map_of_fold_delete)
  have q: "map_of (questionsById (deleteTopic tId s)) q = None"
    if "st \<in> set (subTopicIds topic)" "map_of (subTopicsById s) st = Some sub"
      "q \<in> set (questionIds sub)" for st sub q
  proof -
    have "q \<in> set (concat (map (\<lambda>stId. case map_of (subTopicsById s) stId of
                                          Some st \<Rightarrow> questionIds st | None \<Rightarrow> [])
                               (subTopicIds topic)))"
      using that by (auto intro!: bexI [of _ st])
    then show ?thesis
      using assms(1) by (simp add: deleteTopic_def Let_def map_of_fold_delete)
  qed
  have ord: "tId \<notin> set (topicOrder (deleteTopic tId s))"
    using assms(1) by (simp add: deleteTopic_def Let_def)
  have c: "committed s (deleteTopic tId s)"
    using assms(1) by (simp add: deleteTopic_def Let_def)
  note p = committed_props [OF assms(2) c]
  note u = undo_restores_fields [OF assms(2) c]
  have cu: "canUndo (deleteTopic tId s)" using p(1,2) by (simp add: canUndo_def)
  have restored: "map_of (topicsById (undo (deleteTopic tId s))) tId = Some topic"
    unfolding u(1) by (rule assms(1))
  show ?thesis using t st q ord cu u restored by blast
qed

theorem cascade_delete_witness:
  "map_of (topicsById (deleteTopic ''t1'' sampleStore)) ''t1'' = None
   \<and> map_of (subTopicsById (deleteTopic ''t1'' sampleStore)) ''A'' = None
   \<and> map_of (subTopicsById (deleteTopic ''t1'' sampleStore)) ''B'' = None
   \<and> map_of (questionsById (deleteTopic ''t1'' sampleStore)) ''q1'' = None
   \<and> map_of (questionsById (deleteTopic ''t1'' sampleStore)) ''q2'' = None
   \<and> map_of (questionsById (deleteTopic ''t1'' sampleStore)) ''q3'' = None
   \<and> topicOrder (deleteTopic ''t1'' sampleStore) = [''t2'']
   \<and> canUndo (deleteTopic ''t1'' sampleStore)
   \<and> map fst (topicsById (undo (deleteTopic ''t1'' sampleStore))) = [''t1'', ''t2'']
   \<and> map fst (subTopicsById (undo (deleteTopic ''t1'' sampleStore))) = [''A'', ''B'']
   \<and> map fst (questionsById (undo (deleteTopic ''t1'' sampleStore))) = [''q1'', ''q2'', ''q3'']
   \<and> topicOrder (undo (deleteTopic ''t1'' sampleStore)) = [''t1'', ''t2'']
   \<and> map_of (topicsById (undo (deleteTopic ''t1'' sampleStore))) ''t1''
       = Some \<lparr> topic_id = ''t1'', topic_name = ''Arrays'', subTopicIds = [''A'', ''B''] \<rparr>
   \<and> topicsById (undo (deleteTopic ''t1'' sampleStore)) = topicsById sampleStore
   \<and> subTopicsById (undo (deleteTopic ''t1'' sampleStore)) = subTopicsById sampleStore
   \<and> questionsById (undo (deleteTopic ''t1'' sampleStore)) = questionsById sampleStore"
proof -
  have o: "topicOrder (deleteTopic ''t1'' sampleStore) = [''t2'']"
    by (simp add: deleteTopic_def sampleStore_topics Let_def recordHistory_def)
       (simp add: sampleStore_def initialState_def)
  have k: "map fst (topicsById sampleStore) = [''t1'', ''t2'']"
    "map fst (subTopicsById sampleStore) = [''A'', ''B'']"
    "map fst (questionsById sampleStore) = [''q1'', ''q2'', ''q3'']"
    "topicOrder sampleStore = [''t1'', ''t2'']"
    by (simp_all add: sampleStore_def initialState_def)
  note d = cascade_delete [OF sampleStore_topics(1) sampleStore_flag]
  have subs: "''A'' \<in> set (subTopicIds \<lparr> topic_id = ''t1'', topic_name = ''Arrays'',
                 subTopicIds = [''A'', ''B''] \<rparr>)"
    "''B'' \<in> set (subTopicIds \<lparr> topic_id = ''t1'', topic_name = ''Arrays'',
                 subTopicIds = [''A'', ''B''] \<rparr>)"
    by simp_all
  have qa: "''q1'' \<in> set (questionIds \<lparr> sub_id = ''A'', sub_name = ''Basic'', topicId = ''t1'',
              questionIds = [''q1'', ''q2''] \<rparr>)"
    "''q2'' \<in> set (questionIds \<lparr> sub_id = ''A'', sub_name = ''Basic'', topicId = ''t1'',
              questionIds = [''q1'', ''q2''] \<rparr>)"
    and qb: "''q3'' \<in> set (questionIds \<lparr> sub_id = ''B'', sub_name = ''Advanced'',
              topicId = ''t1'', questionIds = [''q3''] \<rparr>)"
    by simp_all
  from d have gone_t: "map_of (topicsById (deleteTopic ''t1'' sampleStore)) ''t1'' = None"
    by blast
  from d subs have gone_s:
    "map_of (subTopicsById (deleteTopic ''t1'' sampleStore)) ''A'' = None"
    "map_of (subTopicsById (deleteTopic ''t1'' sampleStore)) ''B'' = None"
    by blast+
  from d subs(1) sampleStore_subs(1) qa have gone_qa:
    "map_of (questionsById (deleteTopic ''t1'' sampleStore)) ''q1'' = None"
    "map_of (questionsById (deleteTopic ''t1'' sampleStore)) ''q2'' = None"
    by blast+
  from d subs(2) sampleStore_subs(2) qb have gone_qb:
    "map_of (questionsById (deleteTopic ''t1'' sampleStore)) ''q3'' = None"
    by blast
  from d have cu: "canUndo (deleteTopic ''t1'' sampleStore)" by blast
  from d have r: "topicsById (undo (deleteTopic ''t1'' sampleStore)) = topicsById sampleStore"
    "subTopicsById (undo (deleteTopic ''t1'' sampleStore)) = subTopicsById sampleStore"
    "questionsById (undo (deleteTopic ''t1'' sampleStore)) = questionsById sampleStore"
    "topicOrder (undo (deleteTopic ''t1'' sampleStore)) = topicOrder sampleStore"
    "map_of (topicsById (undo (deleteTopic ''t1'' sampleStore))) ''t1''
       = Some \<lparr> topic_id = ''t1'', topic_name = ''Arrays'', subTopicIds = [''A'', ''B''] \<rparr>"
    by blast+
  show ?thesis
    unfolding r(1-4) k
    using gone_t gone_s gone_qa gone_qb o cu r(5) [unfolded r(1)] by blast
qed

text \<open>
  C7. Corrupted-load recovery. A loaded state without the \<^verbatim>\<open>questionsById\<close> key is rejected
  by \<^verbatim>\<open>isValidPersistedState\<close>, and so is one whose topic order names a topic that the topic
  mapping does not hold; for both the rehydration callback removes the stored item. The
  callback does not touch the graph: when it returns, the store still holds the loaded
  topic order and topic mapping, so the store has not started empty.
\<close>

theorem rehydrate_rejected_state_keeps_loaded_graph:
  "getProp shapeWithoutQuestions ''questionsById'' = None
   \<and> \<not> isValidPersistedState shapeWithoutQuestions
   \<and> storageRemoved (onRehydrateStorage (Some shapeWithoutQuestions) False)
   \<and> map_option (\<lambda>st. getProp st ''topicOrder'')
        (stateAfter (onRehydrateStorage (Some shapeWithoutQuestions) False))
       = Some (Some (JArr [JStr ''t1'']))
   \<and> map_option (\<lambda>st. getProp st ''topicsById'')
        (stateAfter (onRehydrateStorage (Some shapeWithoutQuestions) False))
       = Some (getProp shapeWithoutQuestions ''topicsById'')
   \<and> \<not> isValidPersistedState shapeWithDanglingTopic
   \<and> storageRemoved (onRehydrateStorage (Some shapeWithDanglingTopic) False)
   \<and> map_option (\<lambda>st. getProp st ''topicOrder'')
        (stateAfter (onRehydrateStorage (Some shapeWithDanglingTopic) False))
       = Some (Some (JArr [JStr ''t1'', JStr ''ghost'']))
   \<and> map_option (\<lambda>st. getProp st ''topicsById'')
        (stateAfter (onRehydrateStorage (Some shapeWithDanglingTopic) False))
       = Some (getProp shapeWithDanglingTopic ''topicsById'')"
proof -
  have q: "getProp shapeWithoutQuestions ''questionsById'' = None"
    by (simp add: shapeWithoutQuestions_def getProp_def)
  have v1: "\<not> isValidPersistedState shapeWithoutQuestions"
    using q by (rule missing_questionsById_rejected)
  have v2: "\<not> isValidPersistedState shapeWithDanglingTopic"
    by (simp add: shapeWithDanglingTopic_def valid_JObj getProp_def)
  have t: "jsTruthy shapeWithoutQuestions" "jsTruthy shapeWithDanglingTopic"
    by (simp_all add: shapeWithoutQuestions_def shapeWithDanglingTopic_def jsTruthy_def)
  have a1: "getProp (setHasHydrated True shapeWithoutQuestions) ''topicOrder''
              = Some (JArr [JStr ''t1''])"
    "getProp (setHasHydrated True shapeWithoutQuestions) ''topicsById''
              = getProp shapeWithoutQuestions ''topicsById''"
    by (simp_all add: shapeWithoutQuestions_def setHasHydrated_def getProp_def)
  have a2: "getProp (setHasHydrated True shapeWithDanglingTopic) ''topicOrder''
              = Some (JArr [JStr ''t1'', JStr ''ghost''])"
    "getProp (setHasHydrated True shapeWithDanglingTopic) ''topicsById''
              = getProp shapeWithDanglingTopic ''topicsById''"
    by (simp_all add: shapeWithDanglingTopic_def setHasHydrated_def getProp_def)
  show ?thesis
    using q v1 v2 t a1 a2 by (simp add: onRehydrateStorage_def)
qed

text \<open>
  C8, as amended. \<^verbatim>\<open>validateUrl\<close>, for every URL reader \<open>P\<close> and every candidate \<open>u\<close>: a
  candidate that is empty after trimming is valid; any other candidate is valid exactly
  when the reader returns the protocol \<^verbatim>\<open>http:\<close> or \<^verbatim>\<open>https:\<close>; when the reader throws, the
  error is \<^verbatim>\<open>Invalid URL format\<close>; when the reader returns another protocol, the error is
  \<^verbatim>\<open>URL must use http or https protocol\<close>.
\<close>

theorem validateUrl_outcomes:
  "(trim u = [] \<longrightarrow> validateUrl P u = ValidationResult True None)
   \<and> (trim u \<noteq> [] \<longrightarrow>
        (valid (validateUrl P u) \<longleftrightarrow> P (trim u) = Some ''http:'' \<or> P (trim u) = Some ''https:'')
      \<and> (P (trim u) = None \<longrightarrow>
            validateUrl P u = ValidationResult False (Some ''Invalid URL format''))
      \<and> (\<forall>p. P (trim u) = Some p \<and> p \<noteq> ''http:'' \<and> p \<noteq> ''https:'' \<longrightarrow>
            validateUrl P u
              = ValidationResult False (Some ''URL must use http or https protocol'')))"
  by (auto simp: validateUrl_def Let_def split: option.splits)

theorem validateUrl_outcomes_witness:
  "validateUrl schemeReader ''  '' = ValidationResult True None
   \<and> valid (validateUrl schemeReader ''https://leetcode.com/problems/two-sum '')
   \<and> validateUrl schemeReader ''not a url''
       = ValidationResult False (Some ''Invalid URL format'')
   \<and> validateUrl schemeReader ''ftp://example.com''
       = ValidationResult False (Some ''URL must use http or https protocol'')"
  using validateUrl_outcomes [of "''  ''" schemeReader]
    validateUrl_outcomes [of "''https://leetcode.com/problems/two-sum ''" schemeReader]
    validateUrl_outcomes [of "''not a url''" schemeReader]
    validateUrl_outcomes [of "''ftp://example.com''" schemeReader]
  by (simp add: trim_samples schemeReader_samples)

text \<open>
  C8 as stated fails: \<^verbatim>\<open>ftp://example.com\<close> is not empty, parses as an absolute URL with
  protocol \<^verbatim>\<open>ftp:\<close>, is not valid, and its error is not \<^verbatim>\<open>Invalid URL format\<close>.
\<close>

theorem validateUrl_other_scheme_counterexample:
  "trim ''ftp://example.com'' \<noteq> []
   \<and> schemeReader (trim ''ftp://example.com'') = Some ''ftp:''
   \<and> \<not> valid (validateUrl schemeReader ''ftp://example.com'')
   \<and> verror (validateUrl schemeReader ''ftp://example.com'') \<noteq> Some ''Invalid URL format''"
  by (simp add: validateUrl_def trim_samples schemeReader_samples)

text \<open>
  C9. Stale-ownership moves are silent no-ops: the operation returns the store it was
  given, history included, and it returns no value. For a question: the claimed source
  sub-topic exists and does not list the question. For a sub-topic: the claimed source
  topic exists and the sub-topic's \<^verbatim>\<open>topicId\<close> is another topic (or the sub-topic does not
  exist); where back-reference and membership agree, that is the case whenever the source
  topic does not list the sub-topic.
\<close>

theorem stale_ownership_move_noop:
  "(map_of (subTopicsById s) fromSub = Some f \<and> qId \<notin> set (questionIds f)
      \<longrightarrow> moveQuestionToSubTopic qId fromSub toSub i s = s)
   \<and> (map_of (topicsById s) fromTopic = Some ft
        \<and> (\<forall>st. map_of (subTopicsById s) stId = Some st \<longrightarrow> topicId st \<noteq> fromTopic)
      \<longrightarrow> moveSubTopicToTopic stId fromTopic toTopic j s = s)
   \<and> (map_of (topicsById s) fromTopic = Some ft \<and> map_of (subTopicsById s) stId = Some st
        \<and> (stId \<in> set (subTopicIds ft) \<longleftrightarrow> topicId st = fromTopic)
        \<and> stId \<notin> set (subTopicIds ft)
      \<longrightarrow> moveSubTopicToTopic stId fromTopic toTopic j s = s)"
  by (auto simp: moveQuestionToSubTopic_def moveSubTopicToTopic_def split: option.splits)

theorem stale_ownership_move_noop_witness:
  "moveQuestionToSubTopic ''q3'' ''A'' ''B'' 0 sampleStore = sampleStore
   \<and> moveSubTopicToTopic ''A'' ''t2'' ''t1'' 0 sampleStore = sampleStore"
proof -
  have q: "''q3'' \<notin> set (questionIds \<lparr> sub_id = ''A'', sub_name = ''Basic'', topicId = ''t1'',
             questionIds = [''q1'', ''q2''] \<rparr>)"
    by simp
  have o: "\<forall>st. map_of (subTopicsById sampleStore) ''A'' = Some st \<longrightarrow> topicId st \<noteq> ''t2''"
    by (simp add: sampleStore_subs)
  from stale_ownership_move_noop [of sampleStore "''A''" _ "''q3''" "''B''" 0 "''t2''" _ "''A''"
      "''t1''" 0] sampleStore_subs(1) q sampleStore_topics(2) o
  show ?thesis by blast
qed

text \<open>
  C10. \<^verbatim>\<open>moveSubTopicToTopic\<close> with the same topic as source and destination. The topic
  exists and lists the sub-topic once, and the sub-topic's \<^verbatim>\<open>topicId\<close> is that topic. The
  guards pass, a snapshot of the store is recorded, and afterwards the topic lists the
  sub-topic twice.
\<close>

theorem self_move_duplicates_subtopic:
  assumes "map_of (topicsById s) t = Some topic"
    and "map_of (subTopicsById s) stId = Some sub"
    and "topicId sub = t"
    and "count_list (subTopicIds topic) stId = 1"
    and "\<not> isUndoRedo s"
  shows "map_option (\<lambda>x. count_list (subTopicIds x) stId)
           (map_of (topicsById (moveSubTopicToTopic stId t t i s)) t) = Some 2
       \<and> history (moveSubTopicToTopic stId t t i s) = history (recordHistory s)
       \<and> history (moveSubTopicToTopic stId t t i s) \<noteq> []
       \<and> last (history (moveSubTopicToTopic stId t t i s)) = createSnapshot s"
proof -
  have m: "map_of (topicsById (moveSubTopicToTopic stId t t i s)) t
             = Some (topic\<lparr> subTopicIds := spliceInsert i stId (subTopicIds topic) \<rparr>)"
    using assms(1-3) by (simp add: moveSubTopicToTopic_def Let_def update_conv')
  have c: "committed s (moveSubTopicToTopic stId t t i s)"
    using assms(1-3) by (simp add: moveSubTopicToTopic_def Let_def)
  note p = committed_props [OF assms(5) c]
  have h: "history (moveSubTopicToTopic stId t t i s) = history (recordHistory s)"
    using c by (simp add: committed_def)
  show ?thesis
    using p(2,4) h assms(4) by (simp add: m count_list_spliceInsert)
qed

theorem self_move_duplicates_subtopic_witness:
  "map_option subTopicIds
     (map_of (topicsById (moveSubTopicToTopic ''A'' ''t1'' ''t1'' 0 sampleStore)) ''t1'')
     = Some [''A'', ''A'', ''B'']
   \<and> map_option (\<lambda>x. count_list (subTopicIds x) ''A'')
       (map_of (topicsById (moveSubTopicToTopic ''A'' ''t1'' ''t1'' 0 sampleStore)) ''t1'') = Some 2
   \<and> history (moveSubTopicToTopic ''A'' ''t1'' ''t1'' 0 sampleStore)
     = [createSnapshot sampleStore]"
proof -
  have tid: "topicId \<lparr> sub_id = ''A'', sub_name = ''Basic'', topicId = ''t1'',
                questionIds = [''q1'', ''q2''] \<rparr> = ''t1''"
    and cnt: "count_list (subTopicIds \<lparr> topic_id = ''t1'', topic_name = ''Arrays'',
                subTopicIds = [''A'', ''B''] \<rparr>) ''A'' = 1"
    by simp_all
  have ids: "map_option subTopicIds
     (map_of (topicsById (moveSubTopicToTopic ''A'' ''t1'' ''t1'' 0 sampleStore)) ''t1'')
     = Some [''A'', ''A'', ''B'']"
    by (simp add: moveSubTopicToTopic_def sampleStore_topics sampleStore_subs Let_def
        update_conv' spliceInsert_front)
  have hist: "history (recordHistory sampleStore) = [createSnapshot sampleStore]"
    by (simp add: recordHistory_sampleStore)
  from self_move_duplicates_subtopic [OF sampleStore_topics(1) sampleStore_subs(1) tid cnt
      sampleStore_flag, of 0] ids hist
  show ?thesis by simp
qed

end
